theory Spec2Isabelle
  imports Main "HOL-Library.AList" "HOL-Library.Multiset" "HOL-Library.Char_ord"
    "HOL-Library.List_Lexorder"
begin

section \<open>Python values\<close>

text \<open>
  The bridge is the module \<^verbatim>\<open>ptvsd/wrapper.py\<close>. Exceptions of the Python code are
  values of \<open>py_error\<close>; a function that can raise returns \<open>py_error + 'a\<close>. \<^verbatim>\<open>IDMap.remove\<close>
  returns the map next to the error, since a caller can catch the error and go on with
  the map. An exception that leaves a handler ends the handler (it is logged or raised on);
  the model then gives the error alone and does not follow the state further.
\<close>

datatype py_error = KeyError | ValueError | TypeError | AttributeError | IndexError

text \<open>
  A Python \<^verbatim>\<open>dict\<close> is an association list with unique keys in insertion order:
  \<^verbatim>\<open>d[k] = v\<close> keeps the position of an existing key and appends a new one
  (\<open>AList.update\<close>), \<^verbatim>\<open>d[k]\<close> and \<^verbatim>\<open>del d[k]\<close> raise \<^verbatim>\<open>KeyError\<close> on a missing key.
\<close>

type_synonym ('k, 'v) dict = "('k \<times> 'v) list"

definition dict_get :: "('k, 'v) dict \<Rightarrow> 'k \<Rightarrow> py_error + 'v" where
  "dict_get d k = (case map_of d k of None \<Rightarrow> Inl KeyError | Some v \<Rightarrow> Inr v)"

definition dict_set :: "'k \<Rightarrow> 'v \<Rightarrow> ('k, 'v) dict \<Rightarrow> ('k, 'v) dict" where
  "dict_set k v d = AList.update k v d"

definition dict_del :: "('k, 'v) dict \<Rightarrow> 'k \<Rightarrow> py_error + ('k, 'v) dict" where
  "dict_del d k = (case map_of d k of None \<Rightarrow> Inl KeyError | Some v \<Rightarrow> Inr (AList.delete k d))"

section \<open>IDMap\<close>

text \<open>
  \<^verbatim>\<open>class IDMap\<close>: two dictionaries and the counter of the next VSCode id. VSCode ids are
  Python ints; the pydevd id is any hashable value, so the map is polymorphic in it.
  The lock only serialises the bodies and is not modelled.
\<close>

record 'k idmap =
  vscode_to_pydevd :: "(int, 'k) dict"
  pydevd_to_vscode :: "('k, int) dict"
  next_id :: int

definition IDMap_init :: "'k idmap" where
  "IDMap_init = \<lparr>vscode_to_pydevd = [], pydevd_to_vscode = [], next_id = 1\<rparr>"

text \<open>
  The argument of \<^verbatim>\<open>add\<close> is either the pydevd id or a callable that computes it from
  the VSCode id just generated (\<^verbatim>\<open>if callable(pydevd_id)\<close>).
\<close>

datatype 'k key_arg = Key 'k | Factory "int \<Rightarrow> 'k"

fun key_of :: "'k key_arg \<Rightarrow> int \<Rightarrow> 'k" where
  "key_of (Key k) vscode_id = k"
| "key_of (Factory f) vscode_id = f vscode_id"

definition pairs :: "'k idmap \<Rightarrow> ('k \<times> int) list" where
  "pairs m = pydevd_to_vscode m"

definition add :: "'k key_arg \<Rightarrow> 'k idmap \<Rightarrow> int \<times> 'k idmap" where
  "add a m =
     (let vscode_id = next_id m;
          pydevd_id = key_of a vscode_id
      in (vscode_id,
          m\<lparr>next_id := next_id m + 1,
            vscode_to_pydevd := dict_set vscode_id pydevd_id (vscode_to_pydevd m),
            pydevd_to_vscode := dict_set pydevd_id vscode_id (pydevd_to_vscode m)\<rparr>))"

text \<open>
  \<^verbatim>\<open>remove(pydevd_id=None, vscode_id=None)\<close>: a missing argument is looked up from the
  other one; then both entries are deleted, the VSCode side first. A \<^verbatim>\<open>KeyError\<close> of
  the second \<^verbatim>\<open>del\<close> leaves the first deletion in place.
\<close>

definition remove :: "'k option \<Rightarrow> int option \<Rightarrow> 'k idmap \<Rightarrow> (py_error + unit) \<times> 'k idmap" where
  "remove pydevd_id vscode_id m =
     (case (case pydevd_id of
              None \<Rightarrow>
                (case vscode_id of
                   None \<Rightarrow> Inl KeyError
                 | Some v \<Rightarrow>
                     (case dict_get (vscode_to_pydevd m) v of
                        Inl e \<Rightarrow> Inl e
                      | Inr k \<Rightarrow> Inr (k, v)))
            | Some k \<Rightarrow>
                (case vscode_id of
                   None \<Rightarrow>
                     (case dict_get (pydevd_to_vscode m) k of
                        Inl e \<Rightarrow> Inl e
                      | Inr v \<Rightarrow> Inr (k, v))
                 | Some v \<Rightarrow> Inr (k, v))) of
        Inl e \<Rightarrow> (Inl e, m)
      | Inr (k, v) \<Rightarrow>
          (case dict_del (vscode_to_pydevd m) v of
             Inl e \<Rightarrow> (Inl e, m)
           | Inr d1 \<Rightarrow>
               (case dict_del (pydevd_to_vscode m) k of
                  Inl e \<Rightarrow> (Inl e, m\<lparr>vscode_to_pydevd := d1\<rparr>)
                | Inr d2 \<Rightarrow> (Inr (), m\<lparr>vscode_to_pydevd := d1, pydevd_to_vscode := d2\<rparr>))))"

definition to_pydevd :: "int \<Rightarrow> 'k idmap \<Rightarrow> py_error + 'k" where
  "to_pydevd vscode_id m = dict_get (vscode_to_pydevd m) vscode_id"

definition to_vscode :: "'k \<Rightarrow> bool \<Rightarrow> 'k idmap \<Rightarrow> (py_error + int) \<times> 'k idmap" where
  "to_vscode pydevd_id autogen m =
     (case dict_get (pydevd_to_vscode m) pydevd_id of
        Inr v \<Rightarrow> (Inr v, m)
      | Inl e \<Rightarrow>
          if autogen then (let (v, m') = add (Key pydevd_id) m in (Inr v, m'))
          else (Inl e, m))"

definition pydevd_ids :: "'k idmap \<Rightarrow> 'k list" where
  "pydevd_ids m = map fst (pydevd_to_vscode m)"

definition vscode_ids :: "'k idmap \<Rightarrow> int list" where
  "vscode_ids m = map fst (vscode_to_pydevd m)"

subsection \<open>Sequences of operations on one IDMap\<close>

datatype 'k idmap_op =
    Add "'k key_arg"
  | Remove "'k option" "int option"
  | ToVscode 'k bool

fun apply_op :: "'k idmap_op \<Rightarrow> 'k idmap \<Rightarrow> 'k idmap" where
  "apply_op (Add a) m = snd (add a m)"
| "apply_op (Remove k v) m = snd (remove k v m)"
| "apply_op (ToVscode k autogen) m = snd (to_vscode k autogen m)"

fun run_ops :: "'k idmap_op list \<Rightarrow> 'k idmap \<Rightarrow> 'k idmap" where
  "run_ops [] m = m"
| "run_ops (x # xs) m = run_ops xs (apply_op x m)"

text \<open>The VSCode ids that the calls of \<^verbatim>\<open>add\<close> return in one operation, in order
  (\<^verbatim>\<open>to_vscode\<close> calls \<^verbatim>\<open>add\<close> on a miss with \<^verbatim>\<open>autogen\<close>).\<close>

fun added_by :: "'k idmap_op \<Rightarrow> 'k idmap \<Rightarrow> int list" where
  "added_by (Add a) m = [fst (add a m)]"
| "added_by (Remove k v) m = []"
| "added_by (ToVscode k autogen) m =
     (case dict_get (pydevd_to_vscode m) k of
        Inr v \<Rightarrow> []
      | Inl e \<Rightarrow> if autogen then [fst (add (Key k) m)] else [])"

fun allocated :: "'k idmap_op list \<Rightarrow> 'k idmap \<Rightarrow> int list" where
  "allocated [] m = []"
| "allocated (x # xs) m = added_by x m @ allocated xs (apply_op x m)"

definition mutual_inverses :: "'k idmap \<Rightarrow> bool" where
  "mutual_inverses m =
     (\<forall>i k. map_of (vscode_to_pydevd m) i = Some k \<longleftrightarrow> map_of (pydevd_to_vscode m) k = Some i)"

text \<open>
  What the callers in this module respect: \<^verbatim>\<open>add\<close> is reached either from
  \<^verbatim>\<open>to_vscode\<close> after a miss or with a factory whose key contains the fresh id, so its
  key is not registered; \<^verbatim>\<open>remove\<close> with both arguments gets a pair read from the map.
\<close>

fun op_ok :: "'k idmap \<Rightarrow> 'k idmap_op \<Rightarrow> bool" where
  "op_ok m (Add a) = (map_of (pydevd_to_vscode m) (key_of a (next_id m)) = None)"
| "op_ok m (Remove (Some k) (Some v)) =
     (map_of (vscode_to_pydevd m) v = None \<or> map_of (vscode_to_pydevd m) v = Some k)"
| "op_ok m (Remove k v) = True"
| "op_ok m (ToVscode k autogen) = True"

fun ops_ok :: "'k idmap \<Rightarrow> 'k idmap_op list \<Rightarrow> bool" where
  "ops_ok m [] = True"
| "ops_ok m (x # xs) = (op_ok m x \<and> ops_ok (apply_op x m) xs)"

definition ids_below_next :: "'k idmap \<Rightarrow> bool" where
  "ids_below_next m = (\<forall>i k. map_of (vscode_to_pydevd m) i = Some k \<longrightarrow> i < next_id m)"

definition idmap_inv :: "'k idmap \<Rightarrow> bool" where
  "idmap_inv m = (mutual_inverses m \<and> ids_below_next m)"

text \<open>Both dictionaries have unique keys and are inverse to each other.\<close>

definition idmap_wf :: "'k idmap \<Rightarrow> bool" where
  "idmap_wf m =
     (distinct (map fst (vscode_to_pydevd m)) \<and> distinct (map fst (pydevd_to_vscode m)) \<and>
      mutual_inverses m)"

section \<open>Python strings\<close>

text \<open>
  A Python \<^verbatim>\<open>str\<close> is a \<open>string\<close>; the model covers ASCII text, where a character is
  one \<open>char\<close>. The whitespace of \<^verbatim>\<open>str.strip()\<close> and of \<^verbatim>\<open>int()\<close> in that range is
  TAB, LF, VT, FF, CR, FS, GS, RS, US and the space.
\<close>

definition isspace :: "char \<Rightarrow> bool" where
  "isspace c = (of_char c \<in> {9, 10, 11, 12, 13, 28, 29, 30, 31, 32 :: nat})"

definition lstrip :: "string \<Rightarrow> string" where
  "lstrip s = dropWhile isspace s"

definition rstrip :: "string \<Rightarrow> string" where
  "rstrip s = rev (dropWhile isspace (rev s))"

definition strip :: "string \<Rightarrow> string" where
  "strip s = rstrip (lstrip s)"

fun startswith :: "string \<Rightarrow> string \<Rightarrow> bool" where
  "startswith s [] = True"
| "startswith [] (p # ps) = False"
| "startswith (c # cs) (p # ps) = (c = p \<and> startswith cs ps)"

definition endswith :: "string \<Rightarrow> string \<Rightarrow> bool" where
  "endswith s p = startswith (rev s) (rev p)"

definition isdigit :: "char \<Rightarrow> bool" where
  "isdigit c = (48 \<le> (of_char c :: nat) \<and> (of_char c :: nat) \<le> 57)"

definition digit_val :: "char \<Rightarrow> int" where
  "digit_val c = int (of_char c) - 48"

text \<open>
  \<^verbatim>\<open>int(s)\<close> on a string: surrounding whitespace is dropped, one sign is allowed, then
  decimal digits, where single underscores may stand between digits; anything else
  raises \<^verbatim>\<open>ValueError\<close> (\<open>None\<close> here).
\<close>

fun digits_value :: "int \<Rightarrow> string \<Rightarrow> int option" where
  "digits_value acc [] = None"
| "digits_value acc [c] = (if isdigit c then Some (10 * acc + digit_val c) else None)"
| "digits_value acc (c # d # r) =
     (if isdigit c
      then (if d = CHR ''_'' then digits_value (10 * acc + digit_val c) r
            else digits_value (10 * acc + digit_val c) (d # r))
      else None)"

definition py_int :: "string \<Rightarrow> int option" where
  "py_int s =
     (case strip s of
        [] \<Rightarrow> None
      | c # r \<Rightarrow>
          if c = CHR ''-'' then map_option uminus (digits_value 0 r)
          else if c = CHR ''+'' then digits_value 0 r
          else digits_value 0 (c # r))"

text \<open>\<^verbatim>\<open>str(n)\<close> and \<^verbatim>\<open>'{}'.format(n)\<close> for an int: its decimal digits.\<close>

fun str_nat :: "nat \<Rightarrow> string" where
  "str_nat n =
     (if n < 10 then [''0123456789'' ! n]
      else str_nat (n div 10) @ [''0123456789'' ! (n mod 10)])"

definition str_int :: "int \<Rightarrow> string" where
  "str_int i = (if i < 0 then CHR ''-'' # str_nat (nat (- i)) else str_nat (nat i))"

text \<open>\<^verbatim>\<open>s.replace('\t', ' ')\<close>: every TAB becomes a space.\<close>

definition TAB :: char where
  "TAB = CHR 0x09"

definition replace_tabs :: "string \<Rightarrow> string" where
  "replace_tabs s = map (\<lambda>c. if c = TAB then CHR '' '' else c) s"

text \<open>\<^verbatim>\<open>sep.join(parts)\<close>.\<close>

fun join :: "string \<Rightarrow> string list \<Rightarrow> string" where
  "join sep [] = []"
| "join sep [x] = x"
| "join sep (x # y # r) = x @ sep @ join sep (y # r)"

text \<open>\<^verbatim>\<open>s.lower()\<close> on ASCII letters.\<close>

definition lower_char :: "char \<Rightarrow> char" where
  "lower_char c =
     (case map_of (zip ''ABCDEFGHIJKLMNOPQRSTUVWXYZ'' ''abcdefghijklmnopqrstuvwxyz'') c of
        None \<Rightarrow> c
      | Some l \<Rightarrow> l)"

definition lower :: "string \<Rightarrow> string" where
  "lower s = map lower_char s"

section \<open>Hit conditions\<close>

text \<open>
  \<^verbatim>\<open>_get_hit_condition_expression\<close>: \<^verbatim>\<open>None\<close> and the empty string are falsy; the
  expression is the stripped text, but the last \<^verbatim>\<open>return\<close> gives the text as received.
\<close>

definition get_hit_condition_expression :: "string option \<Rightarrow> string option" where
  "get_hit_condition_expression hit_condition =
     (case hit_condition of
        None \<Rightarrow> None
      | Some h \<Rightarrow>
          if h = [] then None
          else
            let expr = strip h in
            if py_int expr \<noteq> None then Some (''@HIT@ == '' @ expr)
            else if startswith expr ''%'' then Some (''@HIT@ '' @ expr @ '' == 0'')
            else if startswith expr ''=='' \<or> startswith expr ''>'' \<or> startswith expr ''<''
            then Some (''@HIT@ '' @ expr)
            else Some h)"

section \<open>The message processor\<close>

subsection \<open>What pydevd replies\<close>

text \<open>
  \<^verbatim>\<open>parse_xml_response\<close> hands the reply to the XML library; the handlers see either a
  \<^verbatim>\<open>SAXParseException\<close> or the root element. Of the root only its \<^verbatim>\<open>var\<close> children are
  read: with no such child \<^verbatim>\<open>xml.var\<close> raises \<^verbatim>\<open>AttributeError\<close>, with one it is that
  element (which iterates as itself), with several it is their list. An element is its
  attributes; \<^verbatim>\<open>e[k]\<close> is the attribute or \<^verbatim>\<open>None\<close>.
\<close>

type_synonym element = "(string \<times> string) list"

definition attr :: "element \<Rightarrow> string \<Rightarrow> string option" where
  "attr e k = map_of e k"

datatype xml_reply = SAXParseException | Xml "element list"

text \<open>
  The module's \<^verbatim>\<open>unquote\<close>: \<^verbatim>\<open>None\<close> stays, a string goes through the URL decoding of
  the standard library, which the handlers receive as \<open>urllib_unquote\<close>.
\<close>

definition unquote :: "(string \<Rightarrow> string) \<Rightarrow> string option \<Rightarrow> string option" where
  "unquote urllib_unquote s = map_option urllib_unquote s"

text \<open>\<^verbatim>\<open>bool(x)\<close> of an attribute: \<^verbatim>\<open>None\<close> and the empty string are false.\<close>

definition truthy :: "string option \<Rightarrow> bool" where
  "truthy x = (case x of None \<Rightarrow> False | Some s \<Rightarrow> s \<noteq> [])"

subsection \<open>Messages\<close>

text \<open>The commands of the pydevd protocol that the modelled handlers send.\<close>

datatype pydevd_cmd =
    CMD_THREAD_SUSPEND
  | CMD_GET_VARIABLE
  | CMD_SET_BREAK
  | CMD_REMOVE_BREAK
  | CMD_EVALUATE_EXPRESSION
  | CMD_GET_FRAME
  | CMD_EXEC_EXPRESSION

datatype pydevd_msg = Notify pydevd_cmd string | Request pydevd_cmd string

text \<open>The dictionary \<^verbatim>\<open>var\<close> that \<^verbatim>\<open>on_variables\<close> builds for one variable.\<close>

record variable =
  var_name :: string
  var_type :: "string option"
  var_value :: "string option"
  presentationHint :: bool
  variablesReference :: "int option"
  evaluateName :: "string option"

text \<open>One entry of the \<^verbatim>\<open>breakpoints\<close> list of a setBreakpoints response.\<close>

record verified_bp =
  bp_id :: int
  bp_verified :: bool
  bp_line :: int

text \<open>Keyword arguments of \<^verbatim>\<open>send_response\<close> and \<^verbatim>\<open>send_event\<close>.\<close>

datatype arg_value =
    VNone
  | VStr string
  | VInt int
  | VVariables "variable list"
  | VBreakpoints "verified_bp list"

definition str_or_none :: "string option \<Rightarrow> arg_value" where
  "str_or_none x = (case x of None \<Rightarrow> VNone | Some s \<Rightarrow> VStr s)"

text \<open>
  A request is known by its sequence number. \<^verbatim>\<open>send_response(request, success=True,
  message=None, **kwargs)\<close> and \<^verbatim>\<open>send_event(event, **kwargs)\<close> write to the editor.
\<close>

type_synonym request = int

datatype editor_msg =
    Response request bool "string option" "(string \<times> arg_value) list"
  | Event string "(string \<times> arg_value) list"

subsection \<open>State\<close>

text \<open>
  Keys of the maps. A thread is known to pydevd by a string. A frame is
  \<^verbatim>\<open>(pyd_tid, pyd_fid)\<close>. A variable is the tuple \<^verbatim>\<open>(pyd_tid, pyd_fid, 'FRAME', ...)\<close>,
  here the thread, the frame and the list of the remaining components, so that the
  length of the tuple is two more than the length of that list. A breakpoint is
  \<^verbatim>\<open>(path, vsc_bpid)\<close>.
\<close>

type_synonym frame_key = "string \<times> int"
type_synonym var_key = "string \<times> int \<times> string list"
type_synonym bp_key = "string \<times> int"

record exception_info =
  exc_name :: string
  exc_description :: string
  exc_stack :: "string option"
  exc_source :: "string option"

text \<open>A value of \<^verbatim>\<open>debug_options\<close>: a flag or a string.\<close>

datatype option_value = OBool bool | OStr string

fun option_truthy :: "option_value \<Rightarrow> bool" where
  "option_truthy (OBool b) = b"
| "option_truthy (OStr s) = (s \<noteq> [])"

text \<open>One element of \<^verbatim>\<open>args['breakpoints']\<close>; an absent key is \<open>None\<close>.\<close>

record source_bp =
  line :: "int option"
  condition :: "string option"
  hitCondition :: "string option"
  logMessage :: "string option"

record set_breakpoints_args =
  source_path :: "string option"
  breakpoints :: "source_bp list option"

record proc =
  is_process_created :: bool
  stack_traces :: "(string, element list) dict"
  active_exceptions :: "(string, exception_info) dict"
  thread_map :: "string idmap"
  frame_map :: "frame_key idmap"
  var_map :: "var_key idmap"
  bp_map :: "bp_key idmap"
  debug_options :: "(string, option_value) dict"
  bkpoints :: "set_breakpoints_args option"
  editor_out :: "editor_msg list"
  pydevd_out :: "pydevd_msg list"

definition send_response ::
  "request \<Rightarrow> bool \<Rightarrow> string option \<Rightarrow> (string \<times> arg_value) list \<Rightarrow> proc \<Rightarrow> proc" where
  "send_response req success message kwargs s =
     s\<lparr>editor_out := editor_out s @ [Response req success message kwargs]\<rparr>"

definition send_error_response :: "request \<Rightarrow> string option \<Rightarrow> proc \<Rightarrow> proc" where
  "send_error_response req message s = send_response req False message [] s"

definition send_event :: "string \<Rightarrow> (string \<times> arg_value) list \<Rightarrow> proc \<Rightarrow> proc" where
  "send_event ev kwargs s = s\<lparr>editor_out := editor_out s @ [Event ev kwargs]\<rparr>"

definition pydevd_notify :: "pydevd_cmd \<Rightarrow> string \<Rightarrow> proc \<Rightarrow> proc" where
  "pydevd_notify cmd_id args s = s\<lparr>pydevd_out := pydevd_out s @ [Notify cmd_id args]\<rparr>"

definition pydevd_request :: "pydevd_cmd \<Rightarrow> string \<Rightarrow> proc \<Rightarrow> proc" where
  "pydevd_request cmd_id args s = s\<lparr>pydevd_out := pydevd_out s @ [Request cmd_id args]\<rparr>"

text \<open>The state that \<^verbatim>\<open>__init__\<close> sets up.\<close>

definition proc_init :: proc where
  "proc_init =
     \<lparr>is_process_created = False, stack_traces = [], active_exceptions = [],
      thread_map = IDMap_init, frame_map = IDMap_init, var_map = IDMap_init,
      bp_map = IDMap_init, debug_options = [], bkpoints = None,
      editor_out = [], pydevd_out = []\<rparr>"

section \<open>PydevdSocket\<close>

text \<open>
  The socket keeps the next sequence number and the pending requests, each with the
  loop and the future that await the reply. What it does to the outside is recorded in
  \<open>actions\<close>: a call of the message handler, or the scheduling of
  \<^verbatim>\<open>fut.set_result((cmd_id, seq, args))\<close> on the loop.
\<close>

datatype ('l, 'f) socket_action =
    HandleMsg int int string
  | SetResult 'l 'f "int \<times> int \<times> string"

record ('l, 'f) pydevd_socket =
  seq :: int
  requests :: "(int, 'l \<times> 'f) dict"
  written :: "string list"
  actions :: "('l, 'f) socket_action list"

definition PydevdSocket_init :: "('l, 'f) pydevd_socket" where
  "PydevdSocket_init = \<lparr>seq = 1000000000, requests = [], written = [], actions = []\<rparr>"

text \<open>\<^verbatim>\<open>s.split('\t', 1)\<close> when it has two parts.\<close>

definition split_tab :: "string \<Rightarrow> (string \<times> string) option" where
  "split_tab s =
     (if TAB \<in> set s
      then Some (takeWhile (\<lambda>c. c \<noteq> TAB) s, tl (dropWhile (\<lambda>c. c \<noteq> TAB) s))
      else None)"

text \<open>
  \<^verbatim>\<open>cmd_id, seq, args = data.split('\t', 2)\<close> with the two \<^verbatim>\<open>int\<close> conversions: fewer
  than three parts, or a part that is no integer, raise \<^verbatim>\<open>ValueError\<close>.
\<close>

definition parse_frame :: "string \<Rightarrow> py_error + (int \<times> int \<times> string)" where
  "parse_frame data =
     (case split_tab data of
        None \<Rightarrow> Inl ValueError
      | Some (cmd_id, rest) \<Rightarrow>
          (case split_tab rest of
             None \<Rightarrow> Inl ValueError
           | Some (sq, args) \<Rightarrow>
               (case py_int cmd_id of
                  None \<Rightarrow> Inl ValueError
                | Some c \<Rightarrow>
                    (case py_int sq of
                       None \<Rightarrow> Inl ValueError
                     | Some n \<Rightarrow> Inr (c, n, args)))))"

text \<open>
  \<^verbatim>\<open>send\<close>: the data is decoded and unquoted (\<open>urllib_unquote\<close>), parsed, and the pending
  entry of its sequence number is popped, with \<^verbatim>\<open>(None, None)\<close> as default.
\<close>

definition PydevdSocket_send ::
  "(string \<Rightarrow> string) \<Rightarrow> string \<Rightarrow> ('l, 'f) pydevd_socket \<Rightarrow> py_error + (nat \<times> ('l, 'f) pydevd_socket)" where
  "PydevdSocket_send urllib_unquote data s =
     (let result = length data in
      case parse_frame (urllib_unquote data) of
        Inl e \<Rightarrow> Inl e
      | Inr (cmd_id, sq, args) \<Rightarrow>
          (case map_of (requests s) sq of
             None \<Rightarrow> Inr (result, s\<lparr>actions := actions s @ [HandleMsg cmd_id sq args]\<rparr>)
           | Some (loop, fut) \<Rightarrow>
               Inr (result,
                    s\<lparr>requests := AList.delete sq (requests s),
                      actions := actions s @ [SetResult loop fut (cmd_id, sq, args)]\<rparr>)))"

text \<open>\<^verbatim>\<open>make_packet\<close> and \<^verbatim>\<open>pydevd_request\<close>; the future comes from the loop.\<close>

definition make_packet ::
  "int \<Rightarrow> string \<Rightarrow> ('l, 'f) pydevd_socket \<Rightarrow> (int \<times> string) \<times> ('l, 'f) pydevd_socket" where
  "make_packet cmd_id args s =
     ((seq s, str_int cmd_id @ [TAB] @ str_int (seq s) @ [TAB] @ args @ [CHR 0x0A]),
      s\<lparr>seq := seq s + 1\<rparr>)"

definition PydevdSocket_pydevd_request ::
  "'l \<Rightarrow> 'f \<Rightarrow> int \<Rightarrow> string \<Rightarrow> ('l, 'f) pydevd_socket \<Rightarrow> ('l, 'f) pydevd_socket" where
  "PydevdSocket_pydevd_request loop fut cmd_id args s =
     (let ((sq, pkt), s1) = make_packet cmd_id args s
      in s1\<lparr>requests := dict_set sq (loop, fut) (requests s1), written := written s1 @ [pkt]\<rparr>)"

section \<open>Handlers\<close>

subsection \<open>pause\<close>

definition on_pause :: "request \<Rightarrow> int option \<Rightarrow> proc \<Rightarrow> py_error + proc" where
  "on_pause request threadId s =
     (if \<not> is_process_created s
      then Inr (send_response request False
                  (Some ''Cannot pause while debugger is initializing'') [] s)
      else
        (case threadId of
           None \<Rightarrow> Inl KeyError
         | Some vsc_tid \<Rightarrow>
             if vsc_tid = 0
             then Inr (send_response request True None []
                         (fold (\<lambda>pyd_tid. pydevd_notify CMD_THREAD_SUSPEND pyd_tid)
                            (pydevd_ids (thread_map s)) s))
             else
               (case to_pydevd vsc_tid (thread_map s) of
                  Inl e \<Rightarrow> Inl e
                | Inr pyd_tid \<Rightarrow>
                    Inr (send_response request True None []
                           (pydevd_notify CMD_THREAD_SUSPEND pyd_tid s)))))"

subsection \<open>The thread-run event\<close>

text \<open>
  The loops over \<^verbatim>\<open>frame_map.pairs()\<close> and \<^verbatim>\<open>var_map.pairs()\<close>: the list is a copy taken
  before the loop, and \<^verbatim>\<open>remove\<close> is called with both the key and the id.
\<close>

fun remove_scoped :: "('k \<Rightarrow> bool) \<Rightarrow> ('k \<times> int) list \<Rightarrow> 'k idmap \<Rightarrow> py_error + 'k idmap" where
  "remove_scoped scoped [] m = Inr m"
| "remove_scoped scoped ((pyd_id, vsc_id) # ps) m =
     (if scoped pyd_id
      then (case remove (Some pyd_id) (Some vsc_id) m of
              (Inl e, m') \<Rightarrow> Inl e
            | (Inr u, m') \<Rightarrow> remove_scoped scoped ps m')
      else remove_scoped scoped ps m)"

text \<open>\<^verbatim>\<open>try: del d[k] except KeyError: pass\<close>.\<close>

definition dict_discard :: "'k \<Rightarrow> ('k, 'v) dict \<Rightarrow> ('k, 'v) dict" where
  "dict_discard k d = (case dict_del d k of Inl e \<Rightarrow> d | Inr d' \<Rightarrow> d')"

text \<open>\<^verbatim>\<open>pyd_tid, _ = args.split('\t')\<close> needs exactly two parts.\<close>

definition split_two :: "string \<Rightarrow> py_error + (string \<times> string)" where
  "split_two args =
     (case split_tab args of
        None \<Rightarrow> Inl ValueError
      | Some (a, b) \<Rightarrow> if TAB \<in> set b then Inl ValueError else Inr (a, b))"

definition on_pydevd_thread_run :: "int \<Rightarrow> string \<Rightarrow> proc \<Rightarrow> py_error + proc" where
  "on_pydevd_thread_run sq args s =
     (case split_two args of
        Inl e \<Rightarrow> Inl e
      | Inr (t, u) \<Rightarrow>
          (let pyd_tid = strip t;
               s1 = s\<lparr>stack_traces := dict_discard pyd_tid (stack_traces s)\<rparr>;
               s2 = s1\<lparr>active_exceptions := dict_discard pyd_tid (active_exceptions s1)\<rparr>
           in case remove_scoped (\<lambda>pyd_fid. fst pyd_fid = pyd_tid) (pairs (frame_map s2)) (frame_map s2) of
                Inl e \<Rightarrow> Inl e
              | Inr fm \<Rightarrow>
                  (case remove_scoped (\<lambda>pyd_var. fst pyd_var = pyd_tid) (pairs (var_map s2)) (var_map s2) of
                     Inl e \<Rightarrow> Inl e
                   | Inr vm \<Rightarrow>
                       (let s3 = s2\<lparr>frame_map := fm, var_map := vm\<rparr>
                        in case to_vscode pyd_tid False (thread_map s3) of
                             (Inl e, tm) \<Rightarrow> Inr s3
                           | (Inr vsc_tid, tm) \<Rightarrow>
                               Inr (send_event ''continued'' [(''threadId'', VInt vsc_tid)]
                                      (s3\<lparr>thread_map := tm\<rparr>))))))"

subsection \<open>setBreakpoints\<close>

text \<open>
  \<^verbatim>\<open>re.findall('\{.*?\}', logMessage)\<close>: from an opening brace the shortest run up to the
  next closing brace, on one line (the dot does not match LF); the search goes on after
  each match. A brace that is not closed before the end of its line gives no match, and
  neither does any brace after it on that line.
\<close>

fun findall_braces :: "string option \<Rightarrow> string \<Rightarrow> string list" where
  "findall_braces cur [] = []"
| "findall_braces None (c # cs) =
     (if c = CHR ''{'' then findall_braces (Some [c]) cs else findall_braces None cs)"
| "findall_braces (Some acc) (c # cs) =
     (if c = CHR ''}'' then (acc @ [c]) # findall_braces None cs
      else if c = CHR 0x0A then findall_braces None cs
      else findall_braces (Some (acc @ [c])) cs)"

text \<open>\<^verbatim>\<open>s.replace(old, new)\<close>: the occurrences of \<^verbatim>\<open>old\<close> from left to right, without
  overlap; an empty \<^verbatim>\<open>old\<close> matches before every character and at the end.\<close>

function replace_nonempty :: "string \<Rightarrow> string \<Rightarrow> string \<Rightarrow> string" where
  "replace_nonempty old new [] = []"
| "replace_nonempty old new (c # cs) =
     (if old \<noteq> [] \<and> startswith (c # cs) old
      then new @ replace_nonempty old new (drop (length old) (c # cs))
      else c # replace_nonempty old new cs)"
  by pat_completeness auto
termination
  by (relation "measure (\<lambda>(old, new, s). length s)") auto

definition py_replace :: "string \<Rightarrow> string \<Rightarrow> string \<Rightarrow> string" where
  "py_replace old new s =
     (if old = [] then new @ concat (map (\<lambda>c. c # new) s) else replace_nonempty old new s)"

text \<open>\<^verbatim>\<open>s.strip(chars)\<close> with a one-character argument.\<close>

definition strip_char :: "char \<Rightarrow> string \<Rightarrow> string" where
  "strip_char x s = rev (dropWhile (\<lambda>c. c = x) (rev (dropWhile (\<lambda>c. c = x) s)))"

text \<open>
  \<^verbatim>\<open>repr(s)\<close> of a string, as Python 3 prints it: in single quotes, or in double quotes
  when the text has a single quote and no double quote; the backslash and the chosen
  quote are escaped, TAB, LF and CR are written \<^verbatim>\<open>\t\<close>, \<^verbatim>\<open>\n\<close>, \<^verbatim>\<open>\r\<close>, and the other
  control characters \<^verbatim>\<open>\xNN\<close>.
\<close>

definition BACKSLASH :: char where
  "BACKSLASH = CHR 0x5C"

definition DQUOTE :: char where
  "DQUOTE = CHR 0x22"

definition SQUOTE :: char where
  "SQUOTE = CHR 0x27"

definition hex2 :: "nat \<Rightarrow> string" where
  "hex2 n = [''0123456789abcdef'' ! (n div 16), ''0123456789abcdef'' ! (n mod 16)]"

definition repr_char :: "char \<Rightarrow> char \<Rightarrow> string" where
  "repr_char quote c =
     (if c = BACKSLASH then [BACKSLASH, BACKSLASH]
      else if c = quote then [BACKSLASH, quote]
      else if c = TAB then [BACKSLASH, CHR ''t'']
      else if c = CHR 0x0A then [BACKSLASH, CHR ''n'']
      else if c = CHR 0x0D then [BACKSLASH, CHR ''r'']
      else if (of_char c :: nat) < 32 \<or> (of_char c :: nat) = 127
      then [BACKSLASH, CHR ''x''] @ hex2 (of_char c)
      else [c])"

definition py_repr :: "string \<Rightarrow> string" where
  "py_repr s =
     (let quote = (if SQUOTE \<in> set s \<and> DQUOTE \<notin> set s then DQUOTE else SQUOTE)
      in [quote] @ concat (map (repr_char quote) s) @ [quote])"

text \<open>The print expression of a log point, for a log message that is not empty.\<close>

definition logpoint_expression :: "string \<Rightarrow> string" where
  "logpoint_expression log_message =
     (let expressions = findall_braces None log_message in
      if length expressions = 0 then ''print('' @ py_repr log_message @ '')''
      else
        (let raw_text = foldl (\<lambda>a b. py_replace b ''{}'' a) log_message expressions;
             raw_text2 = py_replace [DQUOTE] [BACKSLASH, DQUOTE] raw_text;
             expression_list =
               join '', '' (map (\<lambda>s. strip (strip_char CHR ''}'' (strip_char CHR ''{'' s))) expressions)
         in ''print('' @ [DQUOTE] @ raw_text2 @ [DQUOTE] @ ''.format('' @ expression_list @ ''))''))"

text \<open>\<^verbatim>\<open>'{}'.format(x)\<close> of a string or \<^verbatim>\<open>None\<close>.\<close>

definition format_opt :: "string option \<Rightarrow> string" where
  "format_opt x = (case x of None \<Rightarrow> ''None'' | Some s \<Rightarrow> s)"

text \<open>\<^verbatim>\<open>d.get(key, False)\<close> of the debug options, taken as a condition.\<close>

definition debug_option :: "string \<Rightarrow> proc \<Rightarrow> bool" where
  "debug_option key s =
     (case map_of (debug_options s) key of None \<Rightarrow> False | Some v \<Rightarrow> option_truthy v)"

definition bp_type_of :: "string \<Rightarrow> proc \<Rightarrow> string" where
  "bp_type_of path s =
     (if \<not> endswith (lower path) ''.py''
      then (if debug_option ''DJANGO_DEBUG'' s then ''django-line''
            else if debug_option ''FLASK_DEBUG'' s then ''jinja2-line''
            else ''python-line'')
      else ''python-line'')"

definition remove_break_msg :: "string \<Rightarrow> string \<Rightarrow> int \<Rightarrow> string" where
  "remove_break_msg bp_type path vsc_bpid = join [TAB] [bp_type, path, str_int vsc_bpid]"

text \<open>
  The fields that one element of \<^verbatim>\<open>breakpoints\<close> contributes to the set-break message:
  condition, expression, hit condition and the log-point flag.
\<close>

definition bp_fields :: "source_bp \<Rightarrow> string option \<times> string option \<times> string option \<times> bool" where
  "bp_fields src_bp =
     (let hit_condition = get_hit_condition_expression (hitCondition src_bp);
          log_message = (case logMessage src_bp of None \<Rightarrow> [] | Some l \<Rightarrow> l)
      in if length log_message = 0
         then (condition src_bp, None, hit_condition, False)
         else (None, Some (logpoint_expression log_message), hit_condition, True))"

definition set_break_msg :: "string \<Rightarrow> string \<Rightarrow> int \<Rightarrow> int \<Rightarrow> source_bp \<Rightarrow> string" where
  "set_break_msg bp_type path vsc_bpid ln src_bp =
     (case bp_fields src_bp of
        (cond, expression, hit_condition, is_logpoint) \<Rightarrow>
          join [TAB]
            [str_int vsc_bpid, bp_type, path, str_int ln, ''None'', format_opt cond,
             format_opt expression, format_opt hit_condition,
             if is_logpoint then ''True'' else ''None''])"

text \<open>The loop that deletes the breakpoints of the source.\<close>

fun remove_breaks :: "string \<Rightarrow> string \<Rightarrow> (bp_key \<times> int) list \<Rightarrow> proc \<Rightarrow> py_error + proc" where
  "remove_breaks bp_type path [] s = Inr s"
| "remove_breaks bp_type path ((pyd_bpid, vsc_bpid) # ps) s =
     (if fst pyd_bpid = path
      then
        (let s1 = pydevd_notify CMD_REMOVE_BREAK (remove_break_msg bp_type path vsc_bpid) s
         in case remove (Some pyd_bpid) (Some vsc_bpid) (bp_map s1) of
              (Inl e, m) \<Rightarrow> Inl e
            | (Inr u, m) \<Rightarrow> remove_breaks bp_type path ps (s1\<lparr>bp_map := m\<rparr>))
      else remove_breaks bp_type path ps s)"

text \<open>The loop that sets the breakpoints of the request, in the order given.\<close>

fun set_breaks ::
  "string \<Rightarrow> string \<Rightarrow> source_bp list \<Rightarrow> verified_bp list \<Rightarrow> proc \<Rightarrow> py_error + (verified_bp list \<times> proc)" where
  "set_breaks bp_type path [] bps s = Inr (bps, s)"
| "set_breaks bp_type path (src_bp # rest) bps s =
     (case line src_bp of
        None \<Rightarrow> Inl KeyError
      | Some ln \<Rightarrow>
          (let (vsc_bpid, m) = add (Factory (\<lambda>vsc_bpid. (path, vsc_bpid))) (bp_map s);
               msg = set_break_msg bp_type path vsc_bpid ln src_bp;
               s1 = pydevd_notify CMD_SET_BREAK msg (s\<lparr>bp_map := m\<rparr>)
           in set_breaks bp_type path rest
                (bps @ [\<lparr>bp_id = vsc_bpid, bp_verified = True, bp_line = ln\<rparr>]) s1))"

definition on_setBreakpoints :: "request option \<Rightarrow> set_breakpoints_args \<Rightarrow> proc \<Rightarrow> py_error + proc" where
  "on_setBreakpoints request args s =
     (let s0 = s\<lparr>bkpoints := Some args\<rparr> in
      case source_path args of
        None \<Rightarrow> Inl KeyError
      | Some path \<Rightarrow>
          (let src_bps = (case breakpoints args of None \<Rightarrow> [] | Some l \<Rightarrow> l);
               bp_type = bp_type_of path s0
           in case remove_breaks bp_type path (pairs (bp_map s0)) s0 of
                Inl e \<Rightarrow> Inl e
              | Inr s1 \<Rightarrow>
                  (case set_breaks bp_type path src_bps [] s1 of
                     Inl e \<Rightarrow> Inl e
                   | Inr (bps, s2) \<Rightarrow>
                       (case request of
                          None \<Rightarrow> Inr s2
                        | Some r \<Rightarrow>
                            Inr (send_response r True None
                                   [(''breakpoints'', VBreakpoints bps)] s2)))))"

subsection \<open>evaluate\<close>

definition eval_msg :: "string \<Rightarrow> int \<Rightarrow> string \<Rightarrow> string" where
  "eval_msg pyd_tid pyd_fid expr = join [TAB] [pyd_tid, str_int pyd_fid, ''LOCAL'', expr, ''1'']"

text \<open>
  \<^verbatim>\<open>on_evaluate\<close>. The arguments of the request are \<^verbatim>\<open>expression\<close>, \<^verbatim>\<open>frameId\<close> and
  \<^verbatim>\<open>context\<close>, \<open>None\<close> when the key is absent. The handler waits for the parsed reply to
  its evaluate request and, in the \<^verbatim>\<open>repl\<close> branch, for the parsed reply to its exec
  request; both are arguments here. Subscripting the list that \<^verbatim>\<open>xml.var\<close> is for several
  children raises \<^verbatim>\<open>TypeError\<close>. In the \<^verbatim>\<open>repl\<close> branch every exception of the second parse
  is caught and the first reply's type and value are used. The formatting lock of
  \<^verbatim>\<open>using_format\<close> is not modelled.
\<close>

definition on_evaluate ::
  "(string \<Rightarrow> string) \<Rightarrow> request \<Rightarrow> string option \<Rightarrow> int option \<Rightarrow> string option \<Rightarrow>
     xml_reply \<Rightarrow> xml_reply \<Rightarrow> proc \<Rightarrow> py_error + proc" where
  "on_evaluate urllib_unquote request expression frameId ctx reply1 reply2 s =
     (case expression of
        None \<Rightarrow> Inl KeyError
      | Some e \<Rightarrow>
      (let expr = replace_tabs e in
       case frameId of
         None \<Rightarrow> Inl KeyError
       | Some vsc_fid \<Rightarrow>
       (case to_pydevd vsc_fid (frame_map s) of
          Inl err \<Rightarrow> Inl err
        | Inr (pyd_tid, pyd_fid) \<Rightarrow>
        (let msg = eval_msg pyd_tid pyd_fid expr;
             s1 = pydevd_request CMD_EVALUATE_EXPRESSION msg s
         in case reply1 of
              SAXParseException \<Rightarrow> Inr (send_error_response request None s1)
            | Xml [] \<Rightarrow> Inr (send_response request False None [] s1)
            | Xml (x # y # zs) \<Rightarrow> Inl TypeError
            | Xml [xvar] \<Rightarrow>
              (let context = (case ctx of None \<Rightarrow> [] | Some c \<Rightarrow> c);
                   is_eval_error = attr xvar ''isErrorOnEval''
               in if context = ''hover'' \<and> is_eval_error = Some ''True''
                  then Inr (send_response request True None
                              [(''result'', VNone), (''variablesReference'', VInt 0)] s1)
                  else if context = ''repl'' \<and> is_eval_error = Some ''True''
                  then
                    (let s2 = pydevd_request CMD_EXEC_EXPRESSION msg s1;
                         (result_type, result) =
                           (case reply2 of
                              Xml [xvar2] \<Rightarrow>
                                (unquote urllib_unquote (attr xvar2 ''type''),
                                 unquote urllib_unquote (attr xvar2 ''value''))
                            | _ \<Rightarrow>
                                (unquote urllib_unquote (attr xvar ''type''),
                                 unquote urllib_unquote (attr xvar ''value'')))
                     in Inr (send_response request True None
                               [(''result'',
                                 if result = Some ''None'' \<and> result_type = Some ''NoneType''
                                 then VNone else str_or_none result),
                                (''type'', str_or_none result_type),
                                (''variablesReference'', VInt 0)] s2))
                  else
                    (case to_vscode (pyd_tid, pyd_fid, [''EXPRESSION'', expr]) True (var_map s1) of
                       (Inl err, vm) \<Rightarrow> Inl err
                     | (Inr vsc_var, vm) \<Rightarrow>
                         Inr (send_response request True None
                                ([(''type'', str_or_none (unquote urllib_unquote (attr xvar ''type''))),
                                  (''result'', str_or_none (unquote urllib_unquote (attr xvar ''value'')))]
                                 @ (if truthy (attr xvar ''isContainer'')
                                    then [(''variablesReference'', VInt vsc_var)] else []))
                                (s1\<lparr>var_map := vm\<rparr>))))))))"

subsection \<open>variables\<close>

text \<open>\<^verbatim>\<open>class VariablesSorter\<close>: four lists, filled by \<^verbatim>\<open>append\<close> according to the name.\<close>

record sorter =
  variables :: "variable list"
  single_underscore :: "variable list"
  double_underscore :: "variable list"
  dunder :: "variable list"

definition VariablesSorter_init :: sorter where
  "VariablesSorter_init =
     \<lparr>variables = [], single_underscore = [], double_underscore = [], dunder = []\<rparr>"

definition VariablesSorter_append :: "variable \<Rightarrow> sorter \<Rightarrow> sorter" where
  "VariablesSorter_append var vs =
     (if startswith (var_name var) ''__''
      then (if endswith (var_name var) ''__''
            then vs\<lparr>dunder := dunder vs @ [var]\<rparr>
            else vs\<lparr>double_underscore := double_underscore vs @ [var]\<rparr>)
      else if startswith (var_name var) ''_''
      then vs\<lparr>single_underscore := single_underscore vs @ [var]\<rparr>
      else vs\<lparr>variables := variables vs @ [var]\<rparr>)"

text \<open>
  \<^verbatim>\<open>get_sorted_variables\<close>: \<^verbatim>\<open>list.sort(key=...)\<close> is a stable sort, as \<open>sort_key\<close> is;
  strings compare character by character, a proper prefix being smaller.
\<close>

definition get_sorted_variables :: "sorter \<Rightarrow> variable list" where
  "get_sorted_variables vs =
     sort_key var_name (variables vs) @ sort_key var_name (single_underscore vs) @
     sort_key var_name (double_underscore vs) @ sort_key var_name (dunder vs)"

text \<open>
  \<^verbatim>\<open>_get_index_or_key\<close>. The pattern \<^verbatim>\<open>(.*)\ \(([0-9]*)\)\<close> is matched at the start of the
  text: the first group is the longest prefix without LF that is followed by a space, an
  opening parenthesis, digits and a closing parenthesis. \<open>match_tail\<close> matches what follows
  the first group and gives the digits.
\<close>

definition match_tail :: "string \<Rightarrow> string option" where
  "match_tail s =
     (if startswith s '' (''
      then (let r = drop 2 s
            in if startswith (dropWhile isdigit r) '')'' then Some (takeWhile isdigit r) else None)
      else None)"

fun re_match_key :: "string \<Rightarrow> string \<Rightarrow> (string \<times> string) option" where
  "re_match_key p [] = map_option (Pair p) (match_tail [])"
| "re_match_key p (c # cs) =
     (case (if c = CHR 0x0A then None else re_match_key (p @ [c]) cs) of
        Some r \<Rightarrow> Some r
      | None \<Rightarrow> map_option (Pair p) (match_tail (c # cs)))"

text \<open>The result is what \<^verbatim>\<open>'{}'.format(i)\<close> prints for the index or key; \<open>None\<close> stands for
  the exception of the final \<^verbatim>\<open>int(text)\<close>.\<close>

definition get_index_or_key :: "string \<Rightarrow> string option" where
  "get_index_or_key text =
     (case re_match_key [] text of
        None \<Rightarrow> map_option str_int (py_int text)
      | Some (group1, group2) \<Rightarrow>
          if py_int group2 \<noteq> None then Some group1 else map_option str_int (py_int text))"

definition var_key_len :: "var_key \<Rightarrow> nat" where
  "var_key_len pyd_var = 2 + length (snd (snd pyd_var))"

definition var_key_strs :: "var_key \<Rightarrow> string list" where
  "var_key_strs pyd_var = [fst pyd_var, str_int (fst (snd pyd_var))] @ snd (snd pyd_var)"

definition var_key_child :: "var_key \<Rightarrow> string \<Rightarrow> var_key" where
  "var_key_child pyd_var name = (fst pyd_var, fst (snd pyd_var), snd (snd pyd_var) @ [name])"

text \<open>\<^verbatim>\<open>_get_variable_evaluate_name\<close>: \<^verbatim>\<open>var[3]\<close> is the second component after the frame,
  \<^verbatim>\<open>var[4:]\<close> are the components after it.\<close>

definition get_variable_evaluate_name :: "var_key \<Rightarrow> string \<Rightarrow> string option" where
  "get_variable_evaluate_name pyd_var_parent name =
     (if var_key_len pyd_var_parent > 3
      then
        (let var = snd (snd (var_key_child pyd_var_parent name))
         in Some (foldl (\<lambda>eval_name s.
                     case get_index_or_key s of
                       Some i \<Rightarrow> eval_name @ ''['' @ i @ '']''
                     | None \<Rightarrow> eval_name @ ''.'' @ s)
                   (var ! 1) (drop 2 var)))
      else None)"

text \<open>
  The loop of \<^verbatim>\<open>on_variables\<close> over the \<^verbatim>\<open>var\<close> elements. An element without a name makes
  the handler raise: \<^verbatim>\<open>TypeError\<close> in \<^verbatim>\<open>_get_variable_evaluate_name\<close> when the parent has
  more than three components, \<^verbatim>\<open>AttributeError\<close> in \<^verbatim>\<open>VariablesSorter.append\<close> otherwise.
\<close>

fun variables_loop ::
  "(string \<Rightarrow> string) \<Rightarrow> var_key \<Rightarrow> element list \<Rightarrow> var_key idmap \<Rightarrow> sorter \<Rightarrow>
     py_error + (var_key idmap \<times> sorter)" where
  "variables_loop urllib_unquote pyd_var [] vm vs = Inr (vm, vs)"
| "variables_loop urllib_unquote pyd_var (xvar # rest) vm vs =
     (case unquote urllib_unquote (attr xvar ''name'') of
        None \<Rightarrow> Inl (if var_key_len pyd_var > 3 then TypeError else AttributeError)
      | Some name \<Rightarrow>
          (let vtype = unquote urllib_unquote (attr xvar ''type'');
               val = unquote urllib_unquote (attr xvar ''value'');
               hint = (vtype \<in> set [Some ''str'', Some ''unicode'', Some ''bytes'', Some ''bytearray'']);
               eval_name = get_variable_evaluate_name pyd_var name
           in if truthy (attr xvar ''isContainer'')
              then
                (case to_vscode (var_key_child pyd_var name) True vm of
                   (Inl e, vm1) \<Rightarrow> Inl e
                 | (Inr vsc_child, vm1) \<Rightarrow>
                     variables_loop urllib_unquote pyd_var rest vm1
                       (VariablesSorter_append
                          \<lparr>var_name = name, var_type = vtype, var_value = val,
                           presentationHint = hint, variablesReference = Some vsc_child,
                           evaluateName = (if truthy eval_name then eval_name else None)\<rparr> vs))
              else
                variables_loop urllib_unquote pyd_var rest vm
                  (VariablesSorter_append
                     \<lparr>var_name = name, var_type = vtype, var_value = val,
                      presentationHint = hint, variablesReference = None,
                      evaluateName = (if truthy eval_name then eval_name else None)\<rparr> vs)))"

text \<open>
  The dictionaries \<^verbatim>\<open>var\<close> that the loop builds and hands to \<^verbatim>\<open>append\<close>, one for each
  \<^verbatim>\<open>var\<close> element and in the order of the reply; the references of the containers come
  from the variable map as the loop leaves it after each element.
\<close>

fun built_variables ::
  "(string \<Rightarrow> string) \<Rightarrow> var_key \<Rightarrow> element list \<Rightarrow> var_key idmap \<Rightarrow> variable list" where
  "built_variables urllib_unquote pyd_var [] vm = []"
| "built_variables urllib_unquote pyd_var (xvar # rest) vm =
     (case unquote urllib_unquote (attr xvar ''name'') of
        None \<Rightarrow> []
      | Some name \<Rightarrow>
          (let vtype = unquote urllib_unquote (attr xvar ''type'');
               val = unquote urllib_unquote (attr xvar ''value'');
               hint = (vtype \<in> set [Some ''str'', Some ''unicode'', Some ''bytes'', Some ''bytearray'']);
               eval_name = get_variable_evaluate_name pyd_var name
           in if truthy (attr xvar ''isContainer'')
              then
                (case to_vscode (var_key_child pyd_var name) True vm of
                   (Inl e, vm1) \<Rightarrow> []
                 | (Inr vsc_child, vm1) \<Rightarrow>
                     \<lparr>var_name = name, var_type = vtype, var_value = val,
                      presentationHint = hint, variablesReference = Some vsc_child,
                      evaluateName = (if truthy eval_name then eval_name else None)\<rparr>
                     # built_variables urllib_unquote pyd_var rest vm1)
              else
                \<lparr>var_name = name, var_type = vtype, var_value = val,
                 presentationHint = hint, variablesReference = None,
                 evaluateName = (if truthy eval_name then eval_name else None)\<rparr>
                # built_variables urllib_unquote pyd_var rest vm))"

definition on_variables ::
  "(string \<Rightarrow> string) \<Rightarrow> request \<Rightarrow> int option \<Rightarrow> xml_reply \<Rightarrow> proc \<Rightarrow> py_error + proc" where
  "on_variables urllib_unquote request variablesReference_arg reply s =
     (case variablesReference_arg of
        None \<Rightarrow> Inl KeyError
      | Some vsc_var \<Rightarrow>
          (case to_pydevd vsc_var (var_map s) of
             Inl e \<Rightarrow> Inl e
           | Inr pyd_var \<Rightarrow>
               (let cmd = (if var_key_len pyd_var = 3 then CMD_GET_FRAME else CMD_GET_VARIABLE);
                    msg = join [TAB] (var_key_strs pyd_var);
                    s1 = pydevd_request cmd msg s
                in case reply of
                     SAXParseException \<Rightarrow> Inr (send_error_response request None s1)
                   | Xml xvars \<Rightarrow>
                       (case variables_loop urllib_unquote pyd_var xvars (var_map s1)
                               VariablesSorter_init of
                          Inl e \<Rightarrow> Inl e
                        | Inr (vm, vs) \<Rightarrow>
                            Inr (send_response request True None
                                   [(''variables'', VVariables (get_sorted_variables vs))]
                                   (s1\<lparr>var_map := vm\<rparr>))))))"

text \<open>The four groups of names, numbered in the order in which the response lists them.\<close>

definition name_group :: "string \<Rightarrow> nat" where
  "name_group n =
     (if \<not> startswith n ''_'' then 0
      else if \<not> startswith n ''__'' then 1
      else if \<not> endswith n ''__'' then 2
      else 3)"

section \<open>Example states\<close>

text \<open>A session in which thread \<^verbatim>\<open>t1\<close> is suspended with one frame and its locals, next to a frame of thread \<^verbatim>\<open>t2\<close>.\<close>

definition suspended_example :: proc where
  "suspended_example =
     proc_init
       \<lparr>is_process_created := True,
        stack_traces := [(''t1'', [])],
        thread_map := \<lparr>vscode_to_pydevd = [(1, ''t1'')], pydevd_to_vscode = [(''t1'', 1)], next_id = 2\<rparr>,
        frame_map :=
          \<lparr>vscode_to_pydevd = [(1, (''t1'', 5)), (2, (''t2'', 6))],
           pydevd_to_vscode = [((''t1'', 5), 1), ((''t2'', 6), 2)], next_id = 3\<rparr>,
        var_map :=
          \<lparr>vscode_to_pydevd = [(1, (''t1'', 5, [''FRAME'']))],
           pydevd_to_vscode = [((''t1'', 5, [''FRAME'']), 1)], next_id = 2\<rparr>\<rparr>"

text \<open>A breakpoint of a request with a line and nothing else.\<close>

definition plain_bp :: "int \<Rightarrow> source_bp" where
  "plain_bp ln = \<lparr>line = Some ln, condition = None, hitCondition = None, logMessage = None\<rparr>"

text \<open>The \<^verbatim>\<open>var\<close> elements of a reply that lists four locals.\<close>

definition locals_reply :: "element list" where
  "locals_reply =
     [[(''name'', ''b''), (''type'', ''int''), (''value'', ''1'')],
      [(''name'', ''__x__''), (''type'', ''int''), (''value'', ''2'')],
      [(''name'', ''_p''), (''type'', ''str''), (''value'', ''s'')],
      [(''name'', ''a''), (''type'', ''list''), (''value'', ''[]''), (''isContainer'', ''True'')]]"

section \<open>Properties of IDMap\<close>

lemma next_id_apply_op:
  "next_id (apply_op x m) = next_id m + int (length (added_by x m))"
proof (cases x)
  case (Add a)
  then show ?thesis by (simp add: add_def Let_def)
next
  case (Remove k v)
  then show ?thesis
    by (simp add: remove_def split: option.splits sum.splits prod.splits)
next
  case (ToVscode k autogen)
  then show ?thesis
    by (simp add: to_vscode_def add_def Let_def split: sum.splits)
qed

lemma added_by_cases:
  "added_by x m = [] \<or> added_by x m = [next_id m]"
  by (cases x) (simp_all add: add_def Let_def split: sum.splits)

lemma allocated_from:
  "allocated xs m = [next_id m .. next_id m + int (length (allocated xs m)) - 1]"
proof (induction xs arbitrary: m)
  case Nil
  then show ?case by simp
next
  case (Cons x xs)
  have ih: "allocated xs (apply_op x m) =
      [next_id (apply_op x m) .. next_id (apply_op x m) + int (length (allocated xs (apply_op x m))) - 1]"
    by (rule Cons.IH)
  consider (none) "added_by x m = []" | (one) "added_by x m = [next_id m]"
    using added_by_cases by blast
  then show ?case
  proof cases
    case none
    then have "next_id (apply_op x m) = next_id m"
      by (simp add: next_id_apply_op)
    with ih none show ?thesis by simp
  next
    case one
    then have n: "next_id (apply_op x m) = next_id m + 1"
      by (simp add: next_id_apply_op)
    let ?r = "allocated xs (apply_op x m)"
    have "[next_id m .. next_id m + int (length (next_id m # ?r)) - 1] =
          next_id m # [next_id m + 1 .. next_id m + 1 + int (length ?r) - 1]"
      by (subst upto_rec1) simp_all
    with ih n one show ?thesis by simp
  qed
qed

text \<open>
  C6. From a new IDMap, whatever \<^verbatim>\<open>add\<close>, \<^verbatim>\<open>remove\<close> and \<^verbatim>\<open>to_vscode\<close> calls are made,
  the ids that \<^verbatim>\<open>add\<close> returns are 1, 2, 3, ... in the order of the calls: they start at
  1, increase strictly, and no value is returned twice, also after a \<^verbatim>\<open>remove\<close>.
\<close>

theorem add_ids_fresh_increasing:
  "allocated xs (IDMap_init :: 'k idmap) = [1 .. int (length (allocated xs (IDMap_init :: 'k idmap)))]
   \<and> sorted_wrt (<) (allocated xs (IDMap_init :: 'k idmap))
   \<and> distinct (allocated xs (IDMap_init :: 'k idmap))"
proof -
  let ?ids = "allocated xs (IDMap_init :: 'k idmap)"
  have eq: "?ids = [1 .. int (length ?ids)]"
    using allocated_from [of xs "IDMap_init :: 'k idmap"] by (simp add: IDMap_init_def)
  have "sorted_wrt (<) [1 .. int (length ?ids)]"
    by (rule sorted_wrt_upto)
  then have s: "sorted_wrt (<) ?ids"
    using eq by simp
  have "distinct [1 .. int (length ?ids)]"
    by (rule distinct_upto)
  then have d: "distinct ?ids"
    using eq by simp
  from eq s d show ?thesis by blast
qed

lemma map_of_dict_set: "map_of (dict_set k v d) = (map_of d)(k \<mapsto> v)"
  by (simp add: dict_set_def update_conv')

lemma dict_get_Inr: "dict_get d k = Inr v \<longleftrightarrow> map_of d k = Some v"
  by (simp add: dict_get_def split: option.splits)

lemma dict_get_Inl: "dict_get d k = Inl e \<longleftrightarrow> (map_of d k = None \<and> e = KeyError)"
  by (auto simp add: dict_get_def split: option.splits)

lemma dict_del_Inr: "dict_del d k = Inr d' \<longleftrightarrow> (map_of d k \<noteq> None \<and> d' = AList.delete k d)"
  by (auto simp add: dict_del_def split: option.splits)

lemma dict_del_Inl: "dict_del d k = Inl e \<longleftrightarrow> (map_of d k = None \<and> e = KeyError)"
  by (auto simp add: dict_del_def split: option.splits)

lemma add_preserves:
  assumes "idmap_inv m" and "map_of (pydevd_to_vscode m) (key_of a (next_id m)) = None"
  shows "idmap_inv (snd (add a m))"
proof -
  have fresh: "map_of (vscode_to_pydevd m) (next_id m) = None"
  proof (cases "map_of (vscode_to_pydevd m) (next_id m)")
    case None then show ?thesis .
  next
    case (Some k)
    with assms(1) have "next_id m < next_id m"
      unfolding idmap_inv_def ids_below_next_def by blast
    then show ?thesis by simp
  qed
  have mi: "\<And>i k. map_of (vscode_to_pydevd m) i = Some k \<longleftrightarrow> map_of (pydevd_to_vscode m) k = Some i"
    using assms(1) unfolding idmap_inv_def mutual_inverses_def by blast
  have fresh': "\<And>k. map_of (pydevd_to_vscode m) k \<noteq> Some (next_id m)"
    using fresh mi by (metis option.distinct(1))
  have "mutual_inverses (snd (add a m))"
    unfolding mutual_inverses_def
    using fresh fresh' assms(2) mi
    by (auto simp add: add_def Let_def map_of_dict_set)
  moreover have "ids_below_next (snd (add a m))"
    using assms(1) unfolding idmap_inv_def ids_below_next_def
    by (fastforce simp add: add_def Let_def map_of_dict_set split: if_splits)
  ultimately show ?thesis by (simp add: idmap_inv_def)
qed

lemma remove_pair_preserves:
  assumes "idmap_inv m" and "map_of (vscode_to_pydevd m) v = Some k"
  shows "idmap_inv (m\<lparr>vscode_to_pydevd := AList.delete v (vscode_to_pydevd m),
                      pydevd_to_vscode := AList.delete k (pydevd_to_vscode m)\<rparr>)"
proof -
  have mi: "\<And>i k. map_of (vscode_to_pydevd m) i = Some k \<longleftrightarrow> map_of (pydevd_to_vscode m) k = Some i"
    using assms(1) unfolding idmap_inv_def mutual_inverses_def by blast
  show ?thesis
    unfolding idmap_inv_def mutual_inverses_def ids_below_next_def
    using assms mi
    apply (simp add: delete_conv')
    by (metis idmap_inv_def ids_below_next_def option.inject)
qed


lemma remove_preserves:
  assumes "idmap_inv m" and "op_ok m (Remove pk pv)"
  shows "idmap_inv (snd (remove pk pv m))"
proof -
  have mi: "\<And>i k. map_of (vscode_to_pydevd m) i = Some k \<longleftrightarrow> map_of (pydevd_to_vscode m) k = Some i"
    using assms(1) unfolding idmap_inv_def mutual_inverses_def by blast
  show ?thesis
  proof (cases pk)
    case None
    note pkN = this
    show ?thesis
    proof (cases pv)
      case None
      with pkN assms(1) show ?thesis by (simp add: remove_def)
    next
      case (Some v)
      show ?thesis
      proof (cases "map_of (vscode_to_pydevd m) v")
        case None
        with pkN Some assms(1) show ?thesis
          by (simp add: remove_def dict_get_def)
      next
        case (Some k)
        then have "map_of (pydevd_to_vscode m) k = Some v" using mi by simp
        with Some pkN \<open>pv = Some v\<close> remove_pair_preserves [OF assms(1) Some]
        show ?thesis
          by (simp add: remove_def dict_get_def dict_del_def)
      qed
    qed
  next
    case (Some k)
    note pkS = this
    show ?thesis
    proof (cases pv)
      case None
      show ?thesis
      proof (cases "map_of (pydevd_to_vscode m) k")
        case None
        with pkS \<open>pv = None\<close> assms(1) show ?thesis
          by (simp add: remove_def dict_get_def)
      next
        case (Some v)
        then have v: "map_of (vscode_to_pydevd m) v = Some k" using mi by simp
        with Some pkS \<open>pv = None\<close> remove_pair_preserves [OF assms(1) v]
        show ?thesis
          by (simp add: remove_def dict_get_def dict_del_def)
      qed
    next
      case (Some v)
      with pkS assms(2)
      consider (absent) "map_of (vscode_to_pydevd m) v = None"
        | (pair) "map_of (vscode_to_pydevd m) v = Some k"
        by auto
      then show ?thesis
      proof cases
        case absent
        with pkS Some assms(1) show ?thesis
          by (simp add: remove_def dict_del_def)
      next
        case pair
        then have "map_of (pydevd_to_vscode m) k = Some v" using mi by simp
        with pair pkS Some remove_pair_preserves [OF assms(1) pair]
        show ?thesis
          by (simp add: remove_def dict_del_def)
      qed
    qed
  qed
qed

lemma to_vscode_preserves:
  assumes "idmap_inv m"
  shows "idmap_inv (snd (to_vscode k autogen m))"
proof (cases "map_of (pydevd_to_vscode m) k")
  case None
  then have "idmap_inv (snd (add (Key k) m))"
    using add_preserves [OF assms, of "Key k"] by simp
  with None assms show ?thesis
    by (simp add: to_vscode_def dict_get_def case_prod_beta)
next
  case (Some v)
  with assms show ?thesis
    by (simp add: to_vscode_def dict_get_def)
qed

lemma apply_op_preserves:
  assumes "idmap_inv m" and "op_ok m x"
  shows "idmap_inv (apply_op x m)"
proof (cases x)
  case (Add a)
  with assms show ?thesis using add_preserves [of m a] by simp
next
  case (Remove pk pv)
  with assms show ?thesis using remove_preserves [of m pk pv] by simp
next
  case (ToVscode k autogen)
  with assms show ?thesis using to_vscode_preserves [of m k autogen] by simp
qed

lemma run_ops_preserves:
  "idmap_inv m \<Longrightarrow> ops_ok m xs \<Longrightarrow> idmap_inv (run_ops xs m)"
  by (induction xs arbitrary: m) (simp_all add: apply_op_preserves)

lemma idmap_inv_init: "idmap_inv IDMap_init"
  by (simp add: idmap_inv_def mutual_inverses_def ids_below_next_def IDMap_init_def)

text \<open>
  C1 as stated fails: \<^verbatim>\<open>add\<close> does not look whether the pydevd id is registered already,
  and \<^verbatim>\<open>remove\<close> does not look whether its two arguments belong together. Adding the
  same key twice leaves VSCode id 1 mapped to the key while the key maps to 2; removing
  key \<^verbatim>\<open>a\<close> together with the id of key \<^verbatim>\<open>b\<close> leaves id 1 mapped to \<^verbatim>\<open>a\<close>, which is no
  longer a key.
\<close>

theorem idmap_counterexample:
  "\<not> mutual_inverses (run_ops [Add (Key ''t''), Add (Key ''t'')] IDMap_init) \<and>
   \<not> mutual_inverses
       (run_ops [Add (Key ''a''), Add (Key ''b''), Remove (Some ''a'') (Some 2)] IDMap_init)"
proof
  show "\<not> mutual_inverses (run_ops [Add (Key ''t''), Add (Key ''t'')] IDMap_init)"
  proof
    assume "mutual_inverses (run_ops [Add (Key ''t''), Add (Key ''t'')] IDMap_init)"
    then have "map_of (vscode_to_pydevd (run_ops [Add (Key ''t''), Add (Key ''t'')] IDMap_init)) 1 = Some ''t''
       \<longleftrightarrow> map_of (pydevd_to_vscode (run_ops [Add (Key ''t''), Add (Key ''t'')] IDMap_init)) ''t'' = Some 1"
      unfolding mutual_inverses_def by blast
    then show False
      by (simp add: add_def IDMap_init_def dict_set_def Let_def)
  qed
next
  let ?m = "run_ops [Add (Key ''a''), Add (Key ''b''), Remove (Some ''a'') (Some 2)] IDMap_init"
  show "\<not> mutual_inverses ?m"
  proof
    assume "mutual_inverses ?m"
    then have "map_of (vscode_to_pydevd ?m) 1 = Some ''a'' \<longleftrightarrow> map_of (pydevd_to_vscode ?m) ''a'' = Some 1"
      unfolding mutual_inverses_def by blast
    then show False
      by (simp add: add_def remove_def IDMap_init_def dict_set_def dict_del_def Let_def
          AList.delete_eq)
  qed
qed

text \<open>
  C1, amended. From a new IDMap, along any sequence of \<^verbatim>\<open>add\<close>, \<^verbatim>\<open>remove\<close> and
  \<^verbatim>\<open>to_vscode\<close> calls in which every \<^verbatim>\<open>add\<close> gets a key that is not registered at that
  moment and every \<^verbatim>\<open>remove\<close> with both arguments gets a registered pair (or an
  unregistered VSCode id), the two dictionaries are mutual inverses. And for every map,
  whatever was done to it before, \<^verbatim>\<open>to_vscode\<close> with \<^verbatim>\<open>autogen=False\<close> on a key that is not
  registered raises \<^verbatim>\<open>KeyError\<close> and leaves the map as it was.
\<close>

theorem idmap_guarded:
  "(ops_ok IDMap_init xs \<longrightarrow> mutual_inverses (run_ops xs IDMap_init)) \<and>
   (map_of (pydevd_to_vscode m) k = None \<longrightarrow> to_vscode k False m = (Inl KeyError, m))"
proof (intro conjI impI)
  assume ok: "ops_ok IDMap_init xs"
  have "idmap_inv (run_ops xs IDMap_init)"
    using run_ops_preserves [OF idmap_inv_init ok] .
  then show "mutual_inverses (run_ops xs IDMap_init)"
    by (simp add: idmap_inv_def)
next
  assume "map_of (pydevd_to_vscode m) k = None"
  then show "to_vscode k False m = (Inl KeyError, m)"
    by (simp add: to_vscode_def dict_get_def)
qed

theorem idmap_guarded_witness:
  "ops_ok IDMap_init [Add (Key ''t1''), ToVscode ''t2'' True, Remove (Some ''t1'') None]
   \<and> mutual_inverses (run_ops [Add (Key ''t1''), ToVscode ''t2'' True, Remove (Some ''t1'') None] IDMap_init)
   \<and> map_of (pydevd_to_vscode (run_ops [Add (Key ''t''), Add (Key ''t'')] IDMap_init)) ''u'' = None
   \<and> to_vscode ''u'' False (run_ops [Add (Key ''t''), Add (Key ''t'')] IDMap_init)
       = (Inl KeyError, run_ops [Add (Key ''t''), Add (Key ''t'')] IDMap_init)"
proof -
  let ?xs = "[Add (Key ''t1''), ToVscode ''t2'' True, Remove (Some ''t1'') None]"
  let ?m = "run_ops [Add (Key ''t''), Add (Key ''t'')] (IDMap_init :: string idmap)"
  have ok: "ops_ok IDMap_init ?xs"
    by (simp add: add_def IDMap_init_def dict_set_def dict_get_def to_vscode_def Let_def)
  have none: "map_of (pydevd_to_vscode ?m) ''u'' = None"
    by (simp add: add_def IDMap_init_def dict_set_def Let_def)
  from idmap_guarded [of ?xs ?m "''u''"] ok none show ?thesis by blast
qed

section \<open>Properties of the hit-condition normalizer\<close>

text \<open>
  C5. The normalizer maps \<^verbatim>\<open>"5"\<close> to \<^verbatim>\<open>@HIT@ == 5\<close>, \<^verbatim>\<open>"%3"\<close> to \<^verbatim>\<open>@HIT@ %3 == 0\<close> and
  \<^verbatim>\<open>">=2"\<close> to \<^verbatim>\<open>@HIT@ >=2\<close>; \<^verbatim>\<open>None\<close> and the empty string give no expression.
\<close>

theorem hit_condition_examples:
  "get_hit_condition_expression (Some ''5'') = Some ''@HIT@ == 5''
   \<and> get_hit_condition_expression (Some ''%3'') = Some ''@HIT@ %3 == 0''
   \<and> get_hit_condition_expression (Some ''>=2'') = Some ''@HIT@ >=2''
   \<and> get_hit_condition_expression (Some '''') = None
   \<and> get_hit_condition_expression None = None"
  by (simp add: get_hit_condition_expression_def py_int_def strip_def lstrip_def rstrip_def
      isspace_def isdigit_def digit_val_def Let_def)

section \<open>Properties of the pause handler\<close>

text \<open>
  C8. A pause request handled while the process-created flag is not set adds one
  response to what the editor receives, a failure with the message
  \<^verbatim>\<open>Cannot pause while debugger is initializing\<close>; nothing is sent to pydevd and no
  other part of the state changes.
\<close>

theorem pause_rejected_while_initializing:
  "\<not> is_process_created s \<Longrightarrow>
     on_pause request threadId s =
       Inr (s\<lparr>editor_out := editor_out s @
              [Response request False (Some ''Cannot pause while debugger is initializing'') []]\<rparr>)"
  by (simp add: on_pause_def send_response_def)

theorem pause_rejected_witness:
  "\<not> is_process_created proc_init \<and>
   on_pause 7 (Some 0) proc_init =
     Inr (proc_init\<lparr>editor_out :=
       [Response 7 False (Some ''Cannot pause while debugger is initializing'') []]\<rparr>)"
proof -
  have h: "\<not> is_process_created proc_init"
    by (simp add: proc_init_def)
  have e: "editor_out proc_init = []"
    by (simp add: proc_init_def)
  from pause_rejected_while_initializing [OF h, of 7 "Some 0"] h e show ?thesis
    by simp
qed

section \<open>Properties of the socket\<close>

text \<open>
  C2 as stated fails in its last part: a second reply for a sequence number that was
  resolved already is not rejected. The pending entry is gone, so the reply goes to the
  message handler like any other event.
\<close>

theorem second_reply_counterexample:
  "PydevdSocket_send id (''105'' @ [TAB] @ ''7'' @ [TAB] @ ''again'')
     (snd (projr (PydevdSocket_send id (''105'' @ [TAB] @ ''7'' @ [TAB] @ ''stopped'')
        (PydevdSocket_init\<lparr>requests := [(7, (0::nat, 0::nat))]\<rparr>))))
   = Inr (11, PydevdSocket_init\<lparr>requests := [],
            actions := [SetResult 0 0 (105, 7, ''stopped''), HandleMsg 105 7 ''again'']\<rparr>)"
  by (simp add: PydevdSocket_send_def PydevdSocket_init_def parse_frame_def split_tab_def TAB_def
      py_int_def strip_def lstrip_def rstrip_def isspace_def isdigit_def digit_val_def
      AList.delete_eq Let_def)

text \<open>
  C2, amended. For a reply frame that parses to \<^verbatim>\<open>(cmd_id, seq, args)\<close>: if \<^verbatim>\<open>seq\<close> has a
  pending entry, \<^verbatim>\<open>send\<close> removes the entry and schedules \<^verbatim>\<open>set_result\<close> of its future with
  \<^verbatim>\<open>(cmd_id, seq, args)\<close>, once; if it has none, \<^verbatim>\<open>send\<close> passes the frame to the message
  handler and raises nothing; and a later frame with the sequence number of an entry
  that was resolved finds no entry and is passed to the message handler as well.
\<close>

theorem send_resolves_or_dispatches:
  "parse_frame (urllib_unquote data) = Inr (cmd_id, sq, args) \<Longrightarrow>
     (map_of (requests s) sq = Some (loop, fut) \<longrightarrow>
        PydevdSocket_send urllib_unquote data s =
          Inr (length data,
               s\<lparr>requests := AList.delete sq (requests s),
                 actions := actions s @ [SetResult loop fut (cmd_id, sq, args)]\<rparr>)
        \<and> map_of (requests (snd (projr (PydevdSocket_send urllib_unquote data s)))) sq = None)
     \<and> (map_of (requests s) sq = None \<longrightarrow>
        PydevdSocket_send urllib_unquote data s =
          Inr (length data, s\<lparr>actions := actions s @ [HandleMsg cmd_id sq args]\<rparr>))"
  by (simp add: PydevdSocket_send_def Let_def delete_conv')

theorem send_resolves_witness:
  "parse_frame (id (''105'' @ [TAB] @ ''7'' @ [TAB] @ ''stopped'')) = Inr (105, 7, ''stopped'')
   \<and> PydevdSocket_send id (''105'' @ [TAB] @ ''7'' @ [TAB] @ ''stopped'')
        (PydevdSocket_init\<lparr>requests := [(7, (0::nat, 0::nat))]\<rparr>)
      = Inr (13, PydevdSocket_init\<lparr>requests := [], actions := [SetResult 0 0 (105, 7, ''stopped'')]\<rparr>)
   \<and> PydevdSocket_send id (''105'' @ [TAB] @ ''7'' @ [TAB] @ ''stopped'')
        (PydevdSocket_init :: (nat, nat) pydevd_socket)
      = Inr (13, PydevdSocket_init\<lparr>actions := [HandleMsg 105 7 ''stopped'']\<rparr>)"
proof -
  let ?d = "''105'' @ [TAB] @ ''7'' @ [TAB] @ ''stopped''"
  let ?s = "PydevdSocket_init\<lparr>requests := [(7, (0::nat, 0::nat))]\<rparr>"
  have p: "parse_frame (id ?d) = Inr (105, 7, ''stopped'')"
    by (simp add: parse_frame_def split_tab_def TAB_def py_int_def strip_def lstrip_def
        rstrip_def isspace_def isdigit_def digit_val_def)
  have a: "map_of (requests ?s) 7 = Some (0::nat, 0::nat)"
    by simp
  have b: "map_of (requests (PydevdSocket_init :: (nat, nat) pydevd_socket)) 7 = None"
    by (simp add: PydevdSocket_init_def)
  from send_resolves_or_dispatches [of id ?d 105 7 "''stopped''" ?s 0 0] p a
  have r1: "PydevdSocket_send id ?d ?s =
      Inr (length ?d, ?s\<lparr>requests := AList.delete 7 (requests ?s),
             actions := actions ?s @ [SetResult 0 0 (105, 7, ''stopped'')]\<rparr>)"
    by blast
  from send_resolves_or_dispatches
    [of id ?d 105 7 "''stopped''" "PydevdSocket_init :: (nat, nat) pydevd_socket" 0 0] p b
  have r2: "PydevdSocket_send id ?d (PydevdSocket_init :: (nat, nat) pydevd_socket) =
      Inr (length ?d, PydevdSocket_init\<lparr>actions := actions PydevdSocket_init @ [HandleMsg 105 7 ''stopped'']\<rparr>)"
    by blast
  from p r1 r2 show ?thesis
    by (simp add: PydevdSocket_init_def AList.delete_eq)
qed

section \<open>Properties of the thread-run handler\<close>

lemma remove_both_Inr:
  "remove (Some k) (Some v) m = (Inr u, m') \<Longrightarrow>
     m' = m\<lparr>vscode_to_pydevd := AList.delete v (vscode_to_pydevd m),
            pydevd_to_vscode := AList.delete k (pydevd_to_vscode m)\<rparr>"
  by (auto simp add: remove_def dict_del_def split: option.splits)

lemma remove_both_present:
  "map_of (vscode_to_pydevd m) v \<noteq> None \<Longrightarrow> map_of (pydevd_to_vscode m) k \<noteq> None \<Longrightarrow>
     remove (Some k) (Some v) m =
       (Inr (), m\<lparr>vscode_to_pydevd := AList.delete v (vscode_to_pydevd m),
                   pydevd_to_vscode := AList.delete k (pydevd_to_vscode m)\<rparr>)"
  by (auto simp add: remove_def dict_del_def split: option.splits)

lemma remove_scoped_maps:
  "remove_scoped P ps m = Inr m' \<Longrightarrow>
     (\<forall>i. map_of (vscode_to_pydevd m') i =
          (if \<exists>k. (k, i) \<in> set ps \<and> P k then None else map_of (vscode_to_pydevd m) i)) \<and>
     (\<forall>k. map_of (pydevd_to_vscode m') k =
          (if P k \<and> k \<in> fst ` set ps then None else map_of (pydevd_to_vscode m) k)) \<and>
     next_id m' = next_id m"
proof (induction ps arbitrary: m)
  case Nil
  then show ?case by simp
next
  case (Cons p ps)
  obtain k v where p: "p = (k, v)" by (cases p)
  show ?case
  proof (cases "P k")
    case False
    with Cons.prems p have "remove_scoped P ps m = Inr m'" by simp
    from Cons.IH [OF this] False p show ?thesis by auto
  next
    case True
    with Cons.prems p obtain u m1 where
      r: "remove (Some k) (Some v) m = (Inr u, m1)" and rest: "remove_scoped P ps m1 = Inr m'"
      by (auto split: prod.splits sum.splits)
    have m1: "m1 = m\<lparr>vscode_to_pydevd := AList.delete v (vscode_to_pydevd m),
            pydevd_to_vscode := AList.delete k (pydevd_to_vscode m)\<rparr>"
      using remove_both_Inr [OF r] .
    from Cons.IH [OF rest] m1 True p show ?thesis
      by (auto simp add: delete_conv')
  qed
qed

lemma remove_scoped_succeeds:
  "distinct (map fst ps) \<Longrightarrow> distinct (map snd ps) \<Longrightarrow>
   (\<forall>(k, v) \<in> set ps. P k \<longrightarrow>
       map_of (vscode_to_pydevd m) v \<noteq> None \<and> map_of (pydevd_to_vscode m) k \<noteq> None) \<Longrightarrow>
   \<exists>m'. remove_scoped P ps m = Inr m'"
proof (induction ps arbitrary: m)
  case Nil
  then show ?case by simp
next
  case (Cons p ps)
  obtain k v where p: "p = (k, v)" by (cases p)
  from Cons.prems p have d1: "distinct (map fst ps)" and d2: "distinct (map snd ps)"
    and nk: "k \<notin> fst ` set ps" and nv: "v \<notin> snd ` set ps"
    by auto
  show ?case
  proof (cases "P k")
    case False
    have "\<exists>m'. remove_scoped P ps m = Inr m'"
      using Cons.IH [OF d1 d2] Cons.prems(3) by auto
    with False p show ?thesis by simp
  next
    case True
    let ?m1 = "m\<lparr>vscode_to_pydevd := AList.delete v (vscode_to_pydevd m),
                  pydevd_to_vscode := AList.delete k (pydevd_to_vscode m)\<rparr>"
    from True Cons.prems(3) p
    have pres: "map_of (vscode_to_pydevd m) v \<noteq> None" "map_of (pydevd_to_vscode m) k \<noteq> None"
      by auto
    have r: "remove (Some k) (Some v) m = (Inr (), ?m1)"
      using remove_both_present [OF pres] .
    have "\<forall>(k', v') \<in> set ps. P k' \<longrightarrow>
       map_of (vscode_to_pydevd ?m1) v' \<noteq> None \<and> map_of (pydevd_to_vscode ?m1) k' \<noteq> None"
    proof (clarify)
      fix k' v' assume in_ps: "(k', v') \<in> set ps" and pk: "P k'"
      from in_ps nk nv have ne: "k' \<noteq> k" "v' \<noteq> v" by force+
      from Cons.prems(3) in_ps pk
      have "map_of (vscode_to_pydevd m) v' \<noteq> None \<and> map_of (pydevd_to_vscode m) k' \<noteq> None"
        by auto
      with ne show "map_of (vscode_to_pydevd ?m1) v' \<noteq> None \<and> map_of (pydevd_to_vscode ?m1) k' \<noteq> None"
        by (simp add: delete_conv')
    qed
    from Cons.IH [OF d1 d2 this] obtain m' where "remove_scoped P ps ?m1 = Inr m'" by blast
    with True p r show ?thesis by simp
  qed
qed

lemma wf_pairs_distinct_snd:
  assumes "idmap_wf m"
  shows "distinct (map snd (pairs m))"
proof -
  have d: "distinct (map fst (pydevd_to_vscode m))" using assms by (simp add: idmap_wf_def)
  have mi: "\<And>i k. map_of (vscode_to_pydevd m) i = Some k \<longleftrightarrow> map_of (pydevd_to_vscode m) k = Some i"
    using assms unfolding idmap_wf_def mutual_inverses_def by blast
  have "inj_on snd (set (pydevd_to_vscode m))"
  proof (rule inj_onI)
    fix x y assume x: "x \<in> set (pydevd_to_vscode m)" and y: "y \<in> set (pydevd_to_vscode m)"
      and e: "snd x = snd y"
    from d x have "map_of (pydevd_to_vscode m) (fst x) = Some (snd x)" by simp
    then have a: "map_of (vscode_to_pydevd m) (snd x) = Some (fst x)" using mi by simp
    from d y have "map_of (pydevd_to_vscode m) (fst y) = Some (snd y)" by simp
    then have "map_of (vscode_to_pydevd m) (snd y) = Some (fst y)" using mi by simp
    with a e have "fst x = fst y" by simp
    with e show "x = y" by (simp add: prod_eq_iff)
  qed
  moreover have "distinct (pydevd_to_vscode m)"
    using d by (rule distinct_map [THEN iffD1, THEN conjunct1])
  ultimately show ?thesis
    by (simp add: pairs_def distinct_map)
qed

lemma wf_remove_scoped_pairs:
  assumes "idmap_wf m"
  shows "\<exists>m'. remove_scoped P (pairs m) m = Inr m'"
proof (rule remove_scoped_succeeds)
  show "distinct (map fst (pairs m))" using assms by (simp add: idmap_wf_def pairs_def)
  show "distinct (map snd (pairs m))" using assms by (rule wf_pairs_distinct_snd)
  have d: "distinct (map fst (pydevd_to_vscode m))" using assms by (simp add: idmap_wf_def)
  have mi: "\<And>i k. map_of (vscode_to_pydevd m) i = Some k \<longleftrightarrow> map_of (pydevd_to_vscode m) k = Some i"
    using assms unfolding idmap_wf_def mutual_inverses_def by blast
  show "\<forall>(k, v) \<in> set (pairs m). P k \<longrightarrow>
       map_of (vscode_to_pydevd m) v \<noteq> None \<and> map_of (pydevd_to_vscode m) k \<noteq> None"
  proof (clarify)
    fix k v assume "(k, v) \<in> set (pairs m)"
    with d have "map_of (pydevd_to_vscode m) k = Some v" by (simp add: pairs_def)
    moreover from this have "map_of (vscode_to_pydevd m) v = Some k" using mi by simp
    ultimately show "map_of (vscode_to_pydevd m) v \<noteq> None \<and> map_of (pydevd_to_vscode m) k \<noteq> None"
      by simp
  qed
qed

lemma remove_scoped_unresolvable:
  assumes "remove_scoped P (pairs m) m = Inr m'" and "(k, i) \<in> set (pairs m)" and "P k"
  shows "to_pydevd i m' = Inl KeyError \<and> to_vscode k False m' = (Inl KeyError, m')"
proof -
  from remove_scoped_maps [OF assms(1)] assms(2,3)
  have "map_of (vscode_to_pydevd m') i = None" and "map_of (pydevd_to_vscode m') k = None"
    by (auto simp add: image_iff)
  then show ?thesis
    by (simp add: to_pydevd_def to_vscode_def dict_get_def)
qed

lemma dict_discard_None: "map_of (dict_discard k d) k = None"
  by (simp add: dict_discard_def dict_del_def delete_conv' split: option.splits)


lemma thread_run_result:
  assumes "split_two args = Inr (t, u)"
    and "on_pydevd_thread_run sq args s = Inr s'"
  shows "\<exists>fm vm.
     remove_scoped (\<lambda>pyd_fid. fst pyd_fid = strip t) (pairs (frame_map s)) (frame_map s) = Inr fm \<and>
     remove_scoped (\<lambda>pyd_var. fst pyd_var = strip t) (pairs (var_map s)) (var_map s) = Inr vm \<and>
     frame_map s' = fm \<and> var_map s' = vm \<and>
     stack_traces s' = dict_discard (strip t) (stack_traces s) \<and>
     active_exceptions s' = dict_discard (strip t) (active_exceptions s) \<and>
     editor_out s' = editor_out s @
       (case map_of (pydevd_to_vscode (thread_map s)) (strip t) of
          None \<Rightarrow> []
        | Some vsc_tid \<Rightarrow> [Event ''continued'' [(''threadId'', VInt vsc_tid)]])"
  using assms
  by (auto simp add: on_pydevd_thread_run_def Let_def to_vscode_def dict_get_def send_event_def
      split: sum.splits option.splits)

lemma thread_run_returns:
  assumes "idmap_wf (frame_map s)" and "idmap_wf (var_map s)"
    and "split_two args = Inr (t, u)"
  shows "\<exists>s'. on_pydevd_thread_run sq args s = Inr s'"
proof -
  obtain fm where fm: "remove_scoped (\<lambda>pyd_fid. fst pyd_fid = strip t) (pairs (frame_map s)) (frame_map s) = Inr fm"
    using wf_remove_scoped_pairs [OF assms(1)] by blast
  obtain vm where vm: "remove_scoped (\<lambda>pyd_var. fst pyd_var = strip t) (pairs (var_map s)) (var_map s) = Inr vm"
    using wf_remove_scoped_pairs [OF assms(2)] by blast
  show ?thesis
    using assms(3) fm vm
    by (simp add: on_pydevd_thread_run_def Let_def to_vscode_def dict_get_def
        split: option.splits)
qed

text \<open>
  C3. For a thread-run event whose arguments are the thread id, a TAB and one more field:
  when the frame map and the variable map are well formed the handler returns; and
  whenever it returns, every frame id and every variable id whose key starts with that
  thread id fails to resolve with \<^verbatim>\<open>KeyError\<close> in both directions, the stack-trace cache
  and the active-exception cache have no entry for the thread, and the editor receives
  one \<^verbatim>\<open>continued\<close> event with the thread's VSCode id if the thread is in the thread map,
  and nothing otherwise.
\<close>

theorem thread_run_invalidates:
  assumes "split_two args = Inr (t, u)"
  shows "(idmap_wf (frame_map s) \<and> idmap_wf (var_map s) \<longrightarrow>
            (\<exists>s'. on_pydevd_thread_run sq args s = Inr s')) \<and>
     (\<forall>s'. on_pydevd_thread_run sq args s = Inr s' \<longrightarrow>
       (\<forall>(k, i) \<in> set (pairs (frame_map s)). fst k = strip t \<longrightarrow>
           to_pydevd i (frame_map s') = Inl KeyError \<and>
           to_vscode k False (frame_map s') = (Inl KeyError, frame_map s')) \<and>
       (\<forall>(k, i) \<in> set (pairs (var_map s)). fst k = strip t \<longrightarrow>
           to_pydevd i (var_map s') = Inl KeyError \<and>
           to_vscode k False (var_map s') = (Inl KeyError, var_map s')) \<and>
       dict_get (stack_traces s') (strip t) = Inl KeyError \<and>
       dict_get (active_exceptions s') (strip t) = Inl KeyError \<and>
       editor_out s' = editor_out s @
         (case map_of (pydevd_to_vscode (thread_map s)) (strip t) of
            None \<Rightarrow> []
          | Some vsc_tid \<Rightarrow> [Event ''continued'' [(''threadId'', VInt vsc_tid)]]))"
proof (intro conjI impI allI)
  assume "idmap_wf (frame_map s) \<and> idmap_wf (var_map s)"
  then show "\<exists>s'. on_pydevd_thread_run sq args s = Inr s'"
    using thread_run_returns [OF _ _ assms] by blast
next
  fix s' assume run: "on_pydevd_thread_run sq args s = Inr s'"
  from thread_run_result [OF assms run] obtain fm vm where
    fm: "remove_scoped (\<lambda>pyd_fid. fst pyd_fid = strip t) (pairs (frame_map s)) (frame_map s) = Inr fm" and
    vm: "remove_scoped (\<lambda>pyd_var. fst pyd_var = strip t) (pairs (var_map s)) (var_map s) = Inr vm" and
    maps: "frame_map s' = fm" "var_map s' = vm" and
    caches: "stack_traces s' = dict_discard (strip t) (stack_traces s)"
      "active_exceptions s' = dict_discard (strip t) (active_exceptions s)" and
    ev: "editor_out s' = editor_out s @
       (case map_of (pydevd_to_vscode (thread_map s)) (strip t) of
          None \<Rightarrow> []
        | Some vsc_tid \<Rightarrow> [Event ''continued'' [(''threadId'', VInt vsc_tid)]])"
    by blast
  show "\<forall>(k, i) \<in> set (pairs (frame_map s)). fst k = strip t \<longrightarrow>
           to_pydevd i (frame_map s') = Inl KeyError \<and>
           to_vscode k False (frame_map s') = (Inl KeyError, frame_map s')"
    unfolding maps using remove_scoped_unresolvable [OF fm] by blast
  show "\<forall>(k, i) \<in> set (pairs (var_map s)). fst k = strip t \<longrightarrow>
           to_pydevd i (var_map s') = Inl KeyError \<and>
           to_vscode k False (var_map s') = (Inl KeyError, var_map s')"
    unfolding maps using remove_scoped_unresolvable [OF vm] by blast
  show "dict_get (stack_traces s') (strip t) = Inl KeyError"
    unfolding caches by (simp add: dict_get_def dict_discard_None)
  show "dict_get (active_exceptions s') (strip t) = Inl KeyError"
    unfolding caches by (simp add: dict_get_def dict_discard_None)
  show "editor_out s' = editor_out s @
         (case map_of (pydevd_to_vscode (thread_map s)) (strip t) of
            None \<Rightarrow> []
          | Some vsc_tid \<Rightarrow> [Event ''continued'' [(''threadId'', VInt vsc_tid)]])"
    by (rule ev)
qed

theorem thread_run_invalidates_witness:
  "idmap_wf (frame_map suspended_example) \<and> idmap_wf (var_map suspended_example) \<and>
   split_two (''t1'' @ [TAB] @ ''x'') = Inr (''t1'', ''x'') \<and>
   (\<exists>s'. on_pydevd_thread_run 0 (''t1'' @ [TAB] @ ''x'') suspended_example = Inr s' \<and>
      to_pydevd 1 (frame_map s') = Inl KeyError \<and>
      to_pydevd 1 (var_map s') = Inl KeyError \<and>
      dict_get (stack_traces s') ''t1'' = Inl KeyError \<and>
      editor_out s' = [Event ''continued'' [(''threadId'', VInt 1)]])"
proof -
  have h1: "idmap_wf (frame_map suspended_example)"
    by (auto simp add: idmap_wf_def mutual_inverses_def suspended_example_def proc_init_def
        split: if_splits)
  have h2: "idmap_wf (var_map suspended_example)"
    by (auto simp add: idmap_wf_def mutual_inverses_def suspended_example_def proc_init_def
        split: if_splits)
  have h3: "split_two (''t1'' @ [TAB] @ ''x'') = Inr (''t1'', ''x'')"
    by (simp add: split_two_def split_tab_def TAB_def)
  have st: "strip ''t1'' = ''t1''"
    by (simp add: strip_def lstrip_def rstrip_def isspace_def)
  have f: "((''t1'', 5), 1) \<in> set (pairs (frame_map suspended_example))"
    by (simp add: pairs_def suspended_example_def proc_init_def)
  have v: "((''t1'', 5, [''FRAME'']), 1) \<in> set (pairs (var_map suspended_example))"
    by (simp add: pairs_def suspended_example_def proc_init_def)
  have e: "editor_out suspended_example = []"
    "map_of (pydevd_to_vscode (thread_map suspended_example)) ''t1'' = Some 1"
    by (simp_all add: suspended_example_def proc_init_def)
  note t = thread_run_invalidates [OF h3, of suspended_example 0]
  from t h1 h2 obtain s' where
    r: "on_pydevd_thread_run 0 (''t1'' @ [TAB] @ ''x'') suspended_example = Inr s'"
    by blast
  from t r have
    fr: "\<forall>(k, i) \<in> set (pairs (frame_map suspended_example)). fst k = strip ''t1'' \<longrightarrow>
         to_pydevd i (frame_map s') = Inl KeyError \<and>
         to_vscode k False (frame_map s') = (Inl KeyError, frame_map s')"
    and vr: "\<forall>(k, i) \<in> set (pairs (var_map suspended_example)). fst k = strip ''t1'' \<longrightarrow>
         to_pydevd i (var_map s') = Inl KeyError \<and>
         to_vscode k False (var_map s') = (Inl KeyError, var_map s')"
    and c: "dict_get (stack_traces s') (strip ''t1'') = Inl KeyError"
    and ev: "editor_out s' = editor_out suspended_example @
       (case map_of (pydevd_to_vscode (thread_map suspended_example)) (strip ''t1'') of
          None \<Rightarrow> []
        | Some vsc_tid \<Rightarrow> [Event ''continued'' [(''threadId'', VInt vsc_tid)]])"
    by blast+
  from fr f st have a: "to_pydevd 1 (frame_map s') = Inl KeyError" by fastforce
  from vr v st have b: "to_pydevd 1 (var_map s') = Inl KeyError" by fastforce
  from ev e st have d: "editor_out s' = [Event ''continued'' [(''threadId'', VInt 1)]]" by simp
  from h1 h2 h3 r a b c d st show ?thesis by auto
qed

section \<open>Properties of setBreakpoints\<close>

text \<open>
  C7 does not hold of the code. \<^verbatim>\<open>on_evaluate\<close>, \<^verbatim>\<open>on_setVariable\<close> and
  \<^verbatim>\<open>on_setExpression\<close> replace every TAB of an expression by a space, because the
  pydevd message format does not permit tabs; \<^verbatim>\<open>on_setBreakpoints\<close> has no such step. For
  a request with a condition \<^verbatim>\<open>x ==<TAB>1\<close>, a hit condition \<^verbatim>\<open>><TAB>5\<close> and a log message
  \<^verbatim>\<open>a<TAB>{x}\<close>, the two set-break messages carry the three expressions with their tabs.
\<close>

theorem set_breakpoints_keeps_tabs:
  "on_setBreakpoints (Some 1)
     \<lparr>source_path = Some ''a.py'',
      breakpoints = Some [\<lparr>line = Some 10, condition = Some (''x =='' @ [TAB] @ ''1''),
                            hitCondition = Some (''>'' @ [TAB] @ ''5''), logMessage = None\<rparr>,
                          \<lparr>line = Some 11, condition = None, hitCondition = None,
                            logMessage = Some (''a'' @ [TAB] @ ''{x}'')\<rparr>]\<rparr>
     proc_init
   = Inr (proc_init
       \<lparr>bp_map := \<lparr>vscode_to_pydevd = [(1, (''a.py'', 1)), (2, (''a.py'', 2))],
                   pydevd_to_vscode = [((''a.py'', 1), 1), ((''a.py'', 2), 2)], next_id = 3\<rparr>,
        bkpoints := Some
          \<lparr>source_path = Some ''a.py'',
           breakpoints = Some [\<lparr>line = Some 10, condition = Some (''x =='' @ [TAB] @ ''1''),
                            hitCondition = Some (''>'' @ [TAB] @ ''5''), logMessage = None\<rparr>,
                          \<lparr>line = Some 11, condition = None, hitCondition = None,
                            logMessage = Some (''a'' @ [TAB] @ ''{x}'')\<rparr>]\<rparr>,
        editor_out := [Response 1 True None
           [(''breakpoints'', VBreakpoints [\<lparr>bp_id = 1, bp_verified = True, bp_line = 10\<rparr>,
                                            \<lparr>bp_id = 2, bp_verified = True, bp_line = 11\<rparr>])]],
        pydevd_out :=
          [Notify CMD_SET_BREAK
             (''1'' @ [TAB] @ ''python-line'' @ [TAB] @ ''a.py'' @ [TAB] @ ''10'' @ [TAB] @ ''None''
              @ [TAB] @ (''x =='' @ [TAB] @ ''1'') @ [TAB] @ ''None''
              @ [TAB] @ (''@HIT@ >'' @ [TAB] @ ''5'') @ [TAB] @ ''None''),
           Notify CMD_SET_BREAK
             (''2'' @ [TAB] @ ''python-line'' @ [TAB] @ ''a.py'' @ [TAB] @ ''11'' @ [TAB] @ ''None''
              @ [TAB] @ ''None''
              @ [TAB] @ (''print('' @ [DQUOTE] @ ''a'' @ [TAB] @ ''{}'' @ [DQUOTE] @ ''.format(x))'')
              @ [TAB] @ ''None'' @ [TAB] @ ''True'')]\<rparr>)"
  by code_simp

lemma remove_breaks_eq:
  "remove_breaks bt p ps s =
     (case remove_scoped (\<lambda>k. fst k = p) ps (bp_map s) of
        Inl e \<Rightarrow> Inl e
      | Inr m \<Rightarrow>
          Inr (s\<lparr>bp_map := m,
                 pydevd_out := pydevd_out s @
                   map (\<lambda>kv. Notify CMD_REMOVE_BREAK (remove_break_msg bt p (snd kv)))
                     (filter (\<lambda>kv. fst (fst kv) = p) ps)\<rparr>))"
proof (induction ps arbitrary: s)
  case Nil
  then show ?case by simp
next
  case (Cons a ps)
  obtain k v where a: "a = (k, v)" by (cases a)
  show ?case
  proof (cases "fst k = p")
    case False
    with Cons.IH [of s] show ?thesis unfolding a by (simp split: sum.splits)
  next
    case True
    let ?s1 = "pydevd_notify CMD_REMOVE_BREAK (remove_break_msg bt p v) s"
    show ?thesis
    proof (cases "remove (Some k) (Some v) (bp_map s)")
      case (Pair r m)
      show ?thesis
      proof (cases r)
        case (Inl e)
        with Pair True show ?thesis unfolding a by (simp add: pydevd_notify_def)
      next
        case (Inr u)
        with Pair True Cons.IH [of "?s1\<lparr>bp_map := m\<rparr>"] show ?thesis
          unfolding a by (simp add: pydevd_notify_def split: sum.splits)
      qed
    qed
  qed
qed

lemma update_absent_append:
  "k \<notin> fst ` set al \<Longrightarrow> AList.update k v al = al @ [(k, v)]"
  by (induction al) auto


lemma add_factory_bp:
  assumes wf: "idmap_wf m" and below: "ids_below_next m"
    and J: "\<forall>k \<in> fst ` set (pydevd_to_vscode m). fst k = p \<longrightarrow> snd k < next_id m"
  shows "\<exists>m'. add (Factory (\<lambda>i. (p, i))) m = (next_id m, m') \<and>
     idmap_wf m' \<and> ids_below_next m' \<and>
     (\<forall>k \<in> fst ` set (pydevd_to_vscode m'). fst k = p \<longrightarrow> snd k < next_id m') \<and>
     pydevd_to_vscode m' = pydevd_to_vscode m @ [((p, next_id m), next_id m)] \<and>
     next_id m' = next_id m + 1"
proof -
  let ?n = "next_id m"
  let ?m' = "snd (add (Factory (\<lambda>i. (p, i))) m)"
  have absent: "(p, ?n) \<notin> fst ` set (pydevd_to_vscode m)"
    using J by fastforce
  then have none: "map_of (pydevd_to_vscode m) (key_of (Factory (\<lambda>i. (p, i))) ?n) = None"
    by (simp add: map_of_eq_None_iff)
  have inv: "idmap_inv m"
    using wf below by (simp add: idmap_inv_def idmap_wf_def)
  have inv': "idmap_inv ?m'"
    using add_preserves [OF inv none] .
  have p2v: "pydevd_to_vscode ?m' = pydevd_to_vscode m @ [((p, ?n), ?n)]"
    using absent by (simp add: add_def Let_def dict_set_def update_absent_append)
  have d1: "distinct (map fst (vscode_to_pydevd ?m'))"
    using wf by (simp add: add_def Let_def dict_set_def idmap_wf_def distinct_update)
  have d2: "distinct (map fst (pydevd_to_vscode ?m'))"
    using wf by (simp add: add_def Let_def dict_set_def idmap_wf_def distinct_update)
  have nx: "next_id ?m' = ?n + 1"
    by (simp add: add_def Let_def)
  have J': "\<forall>k \<in> fst ` set (pydevd_to_vscode ?m'). fst k = p \<longrightarrow> snd k < next_id ?m'"
    unfolding p2v nx using J by fastforce
  have e: "add (Factory (\<lambda>i. (p, i))) m = (?n, ?m')"
    by (simp add: add_def Let_def)
  have w': "idmap_wf ?m'"
    using inv' d1 d2 by (simp add: idmap_wf_def idmap_inv_def)
  have b': "ids_below_next ?m'"
    using inv' by (simp add: idmap_inv_def)
  from e w' b' J' p2v nx show ?thesis
    by blast
qed

lemma set_breaks_char:
  assumes "\<forall>b \<in> set B. line b \<noteq> None"
    and "idmap_wf (bp_map s)" and "ids_below_next (bp_map s)"
    and "\<forall>k \<in> fst ` set (pydevd_to_vscode (bp_map s)). fst k = p \<longrightarrow> snd k < next_id (bp_map s)"
  shows "\<exists>s'. set_breaks bt p B bps s =
        Inr (bps @ map2 (\<lambda>i b. \<lparr>bp_id = i, bp_verified = True, bp_line = the (line b)\<rparr>)
                     [next_id (bp_map s) .. next_id (bp_map s) + int (length B) - 1] B, s') \<and>
     idmap_wf (bp_map s') \<and> ids_below_next (bp_map s') \<and>
     pydevd_to_vscode (bp_map s') =
       pydevd_to_vscode (bp_map s) @
         map (\<lambda>i. ((p, i), i)) [next_id (bp_map s) .. next_id (bp_map s) + int (length B) - 1] \<and>
     next_id (bp_map s') = next_id (bp_map s) + int (length B) \<and>
     pydevd_out s' = pydevd_out s @
       map2 (\<lambda>i b. Notify CMD_SET_BREAK (set_break_msg bt p i (the (line b)) b))
         [next_id (bp_map s) .. next_id (bp_map s) + int (length B) - 1] B \<and>
     editor_out s' = editor_out s \<and> debug_options s' = debug_options s"
  using assms
proof (induction B arbitrary: s bps)
  case Nil
  then show ?case by simp
next
  case (Cons b B)
  let ?n = "next_id (bp_map s)"
  from Cons.prems(1) obtain ln where ln: "line b = Some ln" by auto
  from add_factory_bp [OF Cons.prems(2) Cons.prems(3) Cons.prems(4)] obtain m' where
    a: "add (Factory (\<lambda>i. (p, i))) (bp_map s) = (?n, m')" and
    wf': "idmap_wf m'" and below': "ids_below_next m'" and
    J': "\<forall>k \<in> fst ` set (pydevd_to_vscode m'). fst k = p \<longrightarrow> snd k < next_id m'" and
    p2v': "pydevd_to_vscode m' = pydevd_to_vscode (bp_map s) @ [((p, ?n), ?n)]" and
    nx': "next_id m' = ?n + 1"
    by blast
  let ?s1 = "pydevd_notify CMD_SET_BREAK (set_break_msg bt p ?n ln b) (s\<lparr>bp_map := m'\<rparr>)"
  let ?bps1 = "bps @ [\<lparr>bp_id = ?n, bp_verified = True, bp_line = ln\<rparr>]"
  have step: "set_breaks bt p (b # B) bps s = set_breaks bt p B ?bps1 ?s1"
    using ln a by simp
  have bm: "bp_map ?s1 = m'"
    by (simp add: pydevd_notify_def)
  have prems1: "\<forall>b \<in> set B. line b \<noteq> None" "idmap_wf (bp_map ?s1)" "ids_below_next (bp_map ?s1)"
    "\<forall>k \<in> fst ` set (pydevd_to_vscode (bp_map ?s1)). fst k = p \<longrightarrow> snd k < next_id (bp_map ?s1)"
    using Cons.prems(1) wf' below' J' unfolding bm by simp_all
  from Cons.IH [OF prems1, of ?bps1] obtain s' where
    r: "set_breaks bt p B ?bps1 ?s1 =
        Inr (?bps1 @ map2 (\<lambda>i b. \<lparr>bp_id = i, bp_verified = True, bp_line = the (line b)\<rparr>)
                     [next_id m' .. next_id m' + int (length B) - 1] B, s')" and
    w: "idmap_wf (bp_map s')" "ids_below_next (bp_map s')" and
    pv: "pydevd_to_vscode (bp_map s') =
       pydevd_to_vscode m' @ map (\<lambda>i. ((p, i), i)) [next_id m' .. next_id m' + int (length B) - 1]" and
    nx: "next_id (bp_map s') = next_id m' + int (length B)" and
    po: "pydevd_out s' = pydevd_out ?s1 @
       map2 (\<lambda>i b. Notify CMD_SET_BREAK (set_break_msg bt p i (the (line b)) b))
         [next_id m' .. next_id m' + int (length B) - 1] B" and
    eo: "editor_out s' = editor_out ?s1" "debug_options s' = debug_options ?s1"
    unfolding bm by blast
  have up: "[?n .. ?n + int (length (b # B)) - 1] = ?n # [?n + 1 .. ?n + 1 + int (length B) - 1]"
    by (subst upto_rec1) simp_all
  have "set_breaks bt p (b # B) bps s =
        Inr (bps @ map2 (\<lambda>i b. \<lparr>bp_id = i, bp_verified = True, bp_line = the (line b)\<rparr>)
                     [?n .. ?n + int (length (b # B)) - 1] (b # B), s')"
    unfolding step r up nx' using ln by simp
  moreover have "pydevd_to_vscode (bp_map s') =
       pydevd_to_vscode (bp_map s) @ map (\<lambda>i. ((p, i), i)) [?n .. ?n + int (length (b # B)) - 1]"
    unfolding pv up p2v' nx' by simp
  moreover have "next_id (bp_map s') = ?n + int (length (b # B))"
    unfolding nx nx' by simp
  moreover have "pydevd_out s' = pydevd_out s @
       map2 (\<lambda>i b. Notify CMD_SET_BREAK (set_break_msg bt p i (the (line b)) b))
         [?n .. ?n + int (length (b # B)) - 1] (b # B)"
    unfolding po up nx' using ln by (simp add: pydevd_notify_def)
  moreover have "editor_out s' = editor_out s" "debug_options s' = debug_options s"
    using eo by (simp_all add: pydevd_notify_def)
  ultimately show ?case using w by blast
qed


lemma remove_scoped_lists:
  "remove_scoped P ps m = Inr m' \<Longrightarrow>
     pydevd_to_vscode m' =
       filter (\<lambda>kv. \<not> (P (fst kv) \<and> fst kv \<in> fst ` set ps)) (pydevd_to_vscode m) \<and>
     (distinct (map fst (vscode_to_pydevd m)) \<longrightarrow> distinct (map fst (vscode_to_pydevd m')))"
proof (induction ps arbitrary: m)
  case Nil
  then show ?case by simp
next
  case (Cons a ps)
  obtain k v where a: "a = (k, v)" by (cases a)
  show ?case
  proof (cases "P k")
    case False
    with Cons.prems a have "remove_scoped P ps m = Inr m'" by simp
    from Cons.IH [OF this] False a show ?thesis
      by (auto intro: filter_cong)
  next
    case True
    with Cons.prems a obtain u m1 where
      r: "remove (Some k) (Some v) m = (Inr u, m1)" and rest: "remove_scoped P ps m1 = Inr m'"
      by (auto split: prod.splits sum.splits)
    have m1: "m1 = m\<lparr>vscode_to_pydevd := AList.delete v (vscode_to_pydevd m),
            pydevd_to_vscode := AList.delete k (pydevd_to_vscode m)\<rparr>"
      using remove_both_Inr [OF r] .
    have l: "pydevd_to_vscode m' =
       filter (\<lambda>kv. \<not> (P (fst kv) \<and> fst kv \<in> fst ` set ps)) (AList.delete k (pydevd_to_vscode m))"
      using Cons.IH [OF rest] m1 by simp
    have "pydevd_to_vscode m' =
       filter (\<lambda>kv. \<not> (P (fst kv) \<and> fst kv \<in> fst ` set (a # ps))) (pydevd_to_vscode m)"
      unfolding l AList.delete_eq a using True
      by (auto intro!: filter_cong simp add: case_prod_beta)
    moreover have "distinct (map fst (vscode_to_pydevd m)) \<longrightarrow> distinct (map fst (vscode_to_pydevd m'))"
      using Cons.IH [OF rest] m1 by (simp add: distinct_delete)
    ultimately show ?thesis by blast
  qed
qed

lemma remove_scoped_pairs_wf:
  assumes wf: "idmap_wf m" and r: "remove_scoped P (pairs m) m = Inr m'"
  shows "idmap_wf m' \<and> (ids_below_next m \<longrightarrow> ids_below_next m') \<and> next_id m' = next_id m \<and>
     pydevd_to_vscode m' = filter (\<lambda>kv. \<not> P (fst kv)) (pydevd_to_vscode m)"
proof -
  have d: "distinct (map fst (pydevd_to_vscode m))" "distinct (map fst (vscode_to_pydevd m))"
    using wf by (simp_all add: idmap_wf_def)
  have mi: "\<And>i k. map_of (vscode_to_pydevd m) i = Some k \<longleftrightarrow> map_of (pydevd_to_vscode m) k = Some i"
    using wf unfolding idmap_wf_def mutual_inverses_def by blast
  from remove_scoped_maps [OF r] have
    v: "\<And>i. map_of (vscode_to_pydevd m') i =
          (if \<exists>k. (k, i) \<in> set (pairs m) \<and> P k then None else map_of (vscode_to_pydevd m) i)" and
    p: "\<And>k. map_of (pydevd_to_vscode m') k =
          (if P k \<and> k \<in> fst ` set (pairs m) then None else map_of (pydevd_to_vscode m) k)" and
    n: "next_id m' = next_id m"
    by blast+
  have in_pairs: "\<And>k i. (k, i) \<in> set (pairs m) \<longleftrightarrow> map_of (pydevd_to_vscode m) k = Some i"
    using d(1) by (auto simp add: pairs_def dest: map_of_SomeD)
  have l: "pydevd_to_vscode m' = filter (\<lambda>kv. \<not> P (fst kv)) (pydevd_to_vscode m)"
    using remove_scoped_lists [OF r] by (auto simp add: pairs_def intro!: filter_cong)
  have dv: "distinct (map fst (vscode_to_pydevd m'))"
    using remove_scoped_lists [OF r] d(2) by blast
  have dp: "distinct (map fst (pydevd_to_vscode m'))"
    unfolding l using d(1) by (simp add: distinct_map_filter)
  have "mutual_inverses m'"
    unfolding mutual_inverses_def
  proof (intro allI iffI)
    fix i k assume a: "map_of (vscode_to_pydevd m') i = Some k"
    then have nex: "\<not> (\<exists>k. (k, i) \<in> set (pairs m) \<and> P k)" and vi: "map_of (vscode_to_pydevd m) i = Some k"
      unfolding v by (auto split: if_splits)
    from vi have pk: "map_of (pydevd_to_vscode m) k = Some i" using mi by simp
    then have "(k, i) \<in> set (pairs m)" using in_pairs by simp
    with nex have "\<not> P k" by blast
    with pk show "map_of (pydevd_to_vscode m') k = Some i" unfolding p by simp
  next
    fix i k assume a: "map_of (pydevd_to_vscode m') k = Some i"
    then have pk: "map_of (pydevd_to_vscode m) k = Some i" and np: "\<not> (P k \<and> k \<in> fst ` set (pairs m))"
      unfolding p by (auto split: if_splits)
    from pk have kin: "(k, i) \<in> set (pairs m)" using in_pairs by simp
    then have "k \<in> fst ` set (pairs m)" by force
    with np have npk: "\<not> P k" by blast
    have "\<not> (\<exists>k'. (k', i) \<in> set (pairs m) \<and> P k')"
    proof
      assume "\<exists>k'. (k', i) \<in> set (pairs m) \<and> P k'"
      then obtain k' where k': "(k', i) \<in> set (pairs m)" "P k'" by blast
      then have "map_of (vscode_to_pydevd m) i = Some k'" using in_pairs mi by simp
      moreover have "map_of (vscode_to_pydevd m) i = Some k" using pk mi by simp
      ultimately have "k' = k" by simp
      with k'(2) npk show False by simp
    qed
    moreover have "map_of (vscode_to_pydevd m) i = Some k" using pk mi by simp
    ultimately show "map_of (vscode_to_pydevd m') i = Some k" unfolding v by simp
  qed
  moreover have "ids_below_next m \<longrightarrow> ids_below_next m'"
    unfolding ids_below_next_def v n by (auto split: if_splits)
  ultimately show ?thesis using dv dp n l by (simp add: idmap_wf_def)
qed


lemma bp_type_of_bkpoints [simp]: "bp_type_of p (s\<lparr>bkpoints := b\<rparr>) = bp_type_of p s"
  by (simp add: bp_type_of_def debug_option_def)

lemma set_breakpoints_call:
  assumes wf: "idmap_wf (bp_map s)" and below: "ids_below_next (bp_map s)"
    and lines: "\<forall>b \<in> set B. line b \<noteq> None"
  shows "\<exists>s'. on_setBreakpoints req \<lparr>source_path = Some p, breakpoints = Some B\<rparr> s = Inr s' \<and>
     idmap_wf (bp_map s') \<and> ids_below_next (bp_map s') \<and>
     next_id (bp_map s') = next_id (bp_map s) + int (length B) \<and>
     pydevd_to_vscode (bp_map s') =
       filter (\<lambda>kv. fst (fst kv) \<noteq> p) (pydevd_to_vscode (bp_map s)) @
       map (\<lambda>i. ((p, i), i)) [next_id (bp_map s) .. next_id (bp_map s) + int (length B) - 1] \<and>
     pydevd_out s' = pydevd_out s @
       map (\<lambda>kv. Notify CMD_REMOVE_BREAK (remove_break_msg (bp_type_of p s) p (snd kv)))
         (filter (\<lambda>kv. fst (fst kv) = p) (pairs (bp_map s))) @
       map2 (\<lambda>i b. Notify CMD_SET_BREAK (set_break_msg (bp_type_of p s) p i (the (line b)) b))
         [next_id (bp_map s) .. next_id (bp_map s) + int (length B) - 1] B \<and>
     debug_options s' = debug_options s \<and>
     editor_out s' = editor_out s @
       (case req of
          None \<Rightarrow> []
        | Some r \<Rightarrow>
            [Response r True None
               [(''breakpoints'', VBreakpoints
                   (map2 (\<lambda>i b. \<lparr>bp_id = i, bp_verified = True, bp_line = the (line b)\<rparr>)
                      [next_id (bp_map s) .. next_id (bp_map s) + int (length B) - 1] B))]])"
proof -
  let ?args = "\<lparr>source_path = Some p, breakpoints = Some B\<rparr>"
  let ?s0 = "s\<lparr>bkpoints := Some ?args\<rparr>"
  let ?bt = "bp_type_of p s"
  let ?n = "next_id (bp_map s)"
  let ?P = "\<lambda>k :: bp_key. fst k = p"
  obtain m1 where m1: "remove_scoped ?P (pairs (bp_map s)) (bp_map s) = Inr m1"
    using wf_remove_scoped_pairs [OF wf] by blast
  from remove_scoped_pairs_wf [OF wf m1] below have
    wf1: "idmap_wf m1" and below1: "ids_below_next m1" and n1: "next_id m1 = ?n" and
    l1: "pydevd_to_vscode m1 = filter (\<lambda>kv. fst (fst kv) \<noteq> p) (pydevd_to_vscode (bp_map s))"
    by simp_all
  let ?s1 = "?s0\<lparr>bp_map := m1,
      pydevd_out := pydevd_out s @
        map (\<lambda>kv. Notify CMD_REMOVE_BREAK (remove_break_msg ?bt p (snd kv)))
          (filter (\<lambda>kv. fst (fst kv) = p) (pairs (bp_map s)))\<rparr>"
  have rb: "remove_breaks ?bt p (pairs (bp_map ?s0)) ?s0 = Inr ?s1"
    using m1 by (simp add: remove_breaks_eq)
  have J1: "\<forall>k \<in> fst ` set (pydevd_to_vscode (bp_map ?s1)). fst k = p \<longrightarrow> snd k < next_id (bp_map ?s1)"
    by (auto simp add: l1)
  have wfs1: "idmap_wf (bp_map ?s1)" "ids_below_next (bp_map ?s1)"
    using wf1 below1 by simp_all
  from set_breaks_char [OF lines wfs1 J1, of ?bt "[]"] obtain s2 where
    sb: "set_breaks ?bt p B [] ?s1 =
        Inr (map2 (\<lambda>i b. \<lparr>bp_id = i, bp_verified = True, bp_line = the (line b)\<rparr>)
                     [?n .. ?n + int (length B) - 1] B, s2)" and
    w2: "idmap_wf (bp_map s2)" "ids_below_next (bp_map s2)" and
    pv2: "pydevd_to_vscode (bp_map s2) =
       pydevd_to_vscode m1 @ map (\<lambda>i. ((p, i), i)) [?n .. ?n + int (length B) - 1]" and
    nx2: "next_id (bp_map s2) = ?n + int (length B)" and
    po2: "pydevd_out s2 = pydevd_out ?s1 @
       map2 (\<lambda>i b. Notify CMD_SET_BREAK (set_break_msg ?bt p i (the (line b)) b))
         [?n .. ?n + int (length B) - 1] B" and
    eo2: "editor_out s2 = editor_out s" "debug_options s2 = debug_options s"
    by (auto simp add: n1)
  let ?bps = "map2 (\<lambda>i b. \<lparr>bp_id = i, bp_verified = True, bp_line = the (line b)\<rparr>)
                     [?n .. ?n + int (length B) - 1] B"
  let ?s' = "case req of None \<Rightarrow> s2
             | Some r \<Rightarrow> send_response r True None [(''breakpoints'', VBreakpoints ?bps)] s2"
  have run: "on_setBreakpoints req ?args s = Inr ?s'"
    using rb sb by (simp add: on_setBreakpoints_def Let_def split: option.splits)
  have same: "bp_map ?s' = bp_map s2" "pydevd_out ?s' = pydevd_out s2"
    "debug_options ?s' = debug_options s2"
    by (simp_all add: send_response_def split: option.splits)
  have ed: "editor_out ?s' = editor_out s @
       (case req of None \<Rightarrow> [] | Some r \<Rightarrow> [Response r True None [(''breakpoints'', VBreakpoints ?bps)]])"
    using eo2 by (simp add: send_response_def split: option.splits)
  have po: "pydevd_out ?s' = pydevd_out s @
       map (\<lambda>kv. Notify CMD_REMOVE_BREAK (remove_break_msg ?bt p (snd kv)))
         (filter (\<lambda>kv. fst (fst kv) = p) (pairs (bp_map s))) @
       map2 (\<lambda>i b. Notify CMD_SET_BREAK (set_break_msg ?bt p i (the (line b)) b))
         [?n .. ?n + int (length B) - 1] B"
    unfolding same po2 by simp
  have pv: "pydevd_to_vscode (bp_map ?s') =
       filter (\<lambda>kv. fst (fst kv) \<noteq> p) (pydevd_to_vscode (bp_map s)) @
       map (\<lambda>i. ((p, i), i)) [?n .. ?n + int (length B) - 1]"
    unfolding same pv2 l1 by simp
  from run w2 nx2 pv po eo2(2) ed show ?thesis
    unfolding same [symmetric] by blast
qed


lemma filter_path_entries:
  "filter (\<lambda>kv. fst (fst kv) = p)
     (filter (\<lambda>kv. fst (fst kv) \<noteq> p) xs @ map (\<lambda>i. ((p, i), i)) is) =
   map (\<lambda>i. ((p, i), i)) is"
proof -
  have "filter (\<lambda>kv. fst (fst kv) = p) (filter (\<lambda>kv. fst (fst kv) \<noteq> p) xs) = []"
    by (induction xs) auto
  moreover have "filter (\<lambda>kv. fst (fst kv) = p) (map (\<lambda>i. ((p, i), i)) is) = map (\<lambda>i. ((p, i), i)) is"
    by (induction "is") auto
  ultimately show ?thesis by simp
qed

text \<open>
  C4. Let the breakpoint map be well formed with all ids below the counter, and let every
  element of the two lists have a line. Then setBreakpoints for a path with list \<open>A\<close> and
  then with list \<open>B\<close> both return, and after the second call the entries of the
  breakpoint map whose key names the path are exactly one entry \<^verbatim>\<open>(path, id)\<close> per element
  of \<open>B\<close>, with the ids allocated by the second call in the order of \<open>B\<close>; the ids given
  to the elements of \<open>A\<close> no longer resolve, and the map is again well formed with
  all ids below the counter. Each call sends a remove command for
  each entry of the path that it finds and then a set command for each element of its
  list, in this order; the second call finds the entries that the first call made.
\<close>

theorem set_breakpoints_replaces:
  assumes wf: "idmap_wf (bp_map s)" and below: "ids_below_next (bp_map s)"
    and linesA: "\<forall>b \<in> set A. line b \<noteq> None" and linesB: "\<forall>b \<in> set B. line b \<noteq> None"
  shows "\<exists>s1 s2.
     on_setBreakpoints r1 \<lparr>source_path = Some p, breakpoints = Some A\<rparr> s = Inr s1 \<and>
     on_setBreakpoints r2 \<lparr>source_path = Some p, breakpoints = Some B\<rparr> s1 = Inr s2 \<and>
     next_id (bp_map s1) = next_id (bp_map s) + int (length A) \<and>
     filter (\<lambda>kv. fst (fst kv) = p) (pairs (bp_map s1)) =
       map (\<lambda>i. ((p, i), i)) [next_id (bp_map s) .. next_id (bp_map s) + int (length A) - 1] \<and>
     filter (\<lambda>kv. fst (fst kv) = p) (pairs (bp_map s2)) =
       map (\<lambda>i. ((p, i), i)) [next_id (bp_map s1) .. next_id (bp_map s1) + int (length B) - 1] \<and>
     length (filter (\<lambda>kv. fst (fst kv) = p) (pairs (bp_map s2))) = length B \<and>
     (\<forall>i \<in> set [next_id (bp_map s) .. next_id (bp_map s) + int (length A) - 1].
         to_pydevd i (bp_map s2) = Inl KeyError) \<and>
     idmap_wf (bp_map s2) \<and> ids_below_next (bp_map s2) \<and>
     pydevd_out s1 = pydevd_out s @
       map (\<lambda>kv. Notify CMD_REMOVE_BREAK (remove_break_msg (bp_type_of p s) p (snd kv)))
         (filter (\<lambda>kv. fst (fst kv) = p) (pairs (bp_map s))) @
       map2 (\<lambda>i b. Notify CMD_SET_BREAK (set_break_msg (bp_type_of p s) p i (the (line b)) b))
         [next_id (bp_map s) .. next_id (bp_map s) + int (length A) - 1] A \<and>
     pydevd_out s2 = pydevd_out s1 @
       map (\<lambda>i. Notify CMD_REMOVE_BREAK (remove_break_msg (bp_type_of p s) p i))
         [next_id (bp_map s) .. next_id (bp_map s) + int (length A) - 1] @
       map2 (\<lambda>i b. Notify CMD_SET_BREAK (set_break_msg (bp_type_of p s) p i (the (line b)) b))
         [next_id (bp_map s1) .. next_id (bp_map s1) + int (length B) - 1] B"
proof -
  let ?n = "next_id (bp_map s)"
  let ?idsA = "[?n .. ?n + int (length A) - 1]"
  from set_breakpoints_call [OF wf below linesA, of r1 p] obtain s1 where
    c1: "on_setBreakpoints r1 \<lparr>source_path = Some p, breakpoints = Some A\<rparr> s = Inr s1" and
    wf1: "idmap_wf (bp_map s1)" and below1: "ids_below_next (bp_map s1)" and
    nx1: "next_id (bp_map s1) = ?n + int (length A)" and
    pv1: "pydevd_to_vscode (bp_map s1) =
       filter (\<lambda>kv. fst (fst kv) \<noteq> p) (pydevd_to_vscode (bp_map s)) @ map (\<lambda>i. ((p, i), i)) ?idsA" and
    dbg1: "debug_options s1 = debug_options s" and
    po1: "pydevd_out s1 = pydevd_out s @
       map (\<lambda>kv. Notify CMD_REMOVE_BREAK (remove_break_msg (bp_type_of p s) p (snd kv)))
         (filter (\<lambda>kv. fst (fst kv) = p) (pairs (bp_map s))) @
       map2 (\<lambda>i b. Notify CMD_SET_BREAK (set_break_msg (bp_type_of p s) p i (the (line b)) b)) ?idsA A"
    by blast
  let ?n1 = "next_id (bp_map s1)"
  let ?idsB = "[?n1 .. ?n1 + int (length B) - 1]"
  have bt: "bp_type_of p s1 = bp_type_of p s"
    using dbg1 by (simp add: bp_type_of_def debug_option_def)
  from set_breakpoints_call [OF wf1 below1 linesB, of r2 p] obtain s2 where
    c2: "on_setBreakpoints r2 \<lparr>source_path = Some p, breakpoints = Some B\<rparr> s1 = Inr s2" and
    wf2: "idmap_wf (bp_map s2)" and below2: "ids_below_next (bp_map s2)" and
    pv2: "pydevd_to_vscode (bp_map s2) =
       filter (\<lambda>kv. fst (fst kv) \<noteq> p) (pydevd_to_vscode (bp_map s1)) @ map (\<lambda>i. ((p, i), i)) ?idsB" and
    po2: "pydevd_out s2 = pydevd_out s1 @
       map (\<lambda>kv. Notify CMD_REMOVE_BREAK (remove_break_msg (bp_type_of p s1) p (snd kv)))
         (filter (\<lambda>kv. fst (fst kv) = p) (pairs (bp_map s1))) @
       map2 (\<lambda>i b. Notify CMD_SET_BREAK (set_break_msg (bp_type_of p s1) p i (the (line b)) b)) ?idsB B"
    by blast
  have f1: "filter (\<lambda>kv. fst (fst kv) = p) (pairs (bp_map s1)) = map (\<lambda>i. ((p, i), i)) ?idsA"
    unfolding pairs_def pv1 by (rule filter_path_entries)
  have f2: "filter (\<lambda>kv. fst (fst kv) = p) (pairs (bp_map s2)) = map (\<lambda>i. ((p, i), i)) ?idsB"
    unfolding pairs_def pv2 by (rule filter_path_entries)
  have len: "length (filter (\<lambda>kv. fst (fst kv) = p) (pairs (bp_map s2))) = length B"
    unfolding f2 by simp
  have mi2: "mutual_inverses (bp_map s2)"
    using wf2 by (simp add: idmap_wf_def)
  have po: "pydevd_out s2 = pydevd_out s1 @
       map (\<lambda>i. Notify CMD_REMOVE_BREAK (remove_break_msg (bp_type_of p s) p i)) ?idsA @
       map2 (\<lambda>i b. Notify CMD_SET_BREAK (set_break_msg (bp_type_of p s) p i (the (line b)) b)) ?idsB B"
    unfolding po2 f1 bt by (simp add: o_def)
  have gone: "\<forall>i \<in> set ?idsA. to_pydevd i (bp_map s2) = Inl KeyError"
  proof
    fix i assume i: "i \<in> set ?idsA"
    then have range: "?n \<le> i" "i < ?n1" unfolding nx1 by auto
    have "map_of (vscode_to_pydevd (bp_map s2)) i = None"
    proof (cases "map_of (vscode_to_pydevd (bp_map s2)) i")
      case None
      then show ?thesis .
    next
      case (Some k)
      then have "map_of (pydevd_to_vscode (bp_map s2)) k = Some i"
        using mi2 unfolding mutual_inverses_def by blast
      then have "(k, i) \<in> set (pydevd_to_vscode (bp_map s2))"
        by (rule map_of_SomeD)
      then consider (old) "(k, i) \<in> set (pydevd_to_vscode (bp_map s1))" "fst k \<noteq> p"
        | (new) "i \<in> set ?idsB"
        unfolding pv2 by auto
      then show ?thesis
      proof cases
        case old
        then consider (older) "(k, i) \<in> set (pydevd_to_vscode (bp_map s))" | (a) "fst k = p"
          unfolding pv1 by auto
        then show ?thesis
        proof cases
          case older
          have "distinct (map fst (pydevd_to_vscode (bp_map s)))"
            using wf by (simp add: idmap_wf_def)
          with older have "map_of (pydevd_to_vscode (bp_map s)) k = Some i" by simp
          then have "map_of (vscode_to_pydevd (bp_map s)) i = Some k"
            using wf unfolding idmap_wf_def mutual_inverses_def by blast
          then have "i < ?n" using below unfolding ids_below_next_def by blast
          with range show ?thesis by simp
        next
          case a
          with old show ?thesis by simp
        qed
      next
        case new
        with range show ?thesis by auto
      qed
    qed
    then show "to_pydevd i (bp_map s2) = Inl KeyError"
      by (simp add: to_pydevd_def dict_get_def)
  qed
  from c1 c2 nx1 f1 f2 len gone wf2 below2 po1 po show ?thesis by blast
qed


theorem set_breakpoints_replaces_witness:
  "idmap_wf (bp_map proc_init) \<and> ids_below_next (bp_map proc_init) \<and>
   list_all (\<lambda>b. line b \<noteq> None) [plain_bp 10, plain_bp 20] \<and>
   list_all (\<lambda>b. line b \<noteq> None) [plain_bp 30] \<and>
   (\<exists>s1 s2.
      on_setBreakpoints (Some 1)
        \<lparr>source_path = Some ''a.py'', breakpoints = Some [plain_bp 10, plain_bp 20]\<rparr> proc_init = Inr s1 \<and>
      on_setBreakpoints (Some 2)
        \<lparr>source_path = Some ''a.py'', breakpoints = Some [plain_bp 30]\<rparr> s1 = Inr s2 \<and>
      filter (\<lambda>kv. fst (fst kv) = ''a.py'') (pairs (bp_map s1)) = [((''a.py'', 1), 1), ((''a.py'', 2), 2)] \<and>
      filter (\<lambda>kv. fst (fst kv) = ''a.py'') (pairs (bp_map s2)) = [((''a.py'', 3), 3)] \<and>
      to_pydevd 1 (bp_map s2) = Inl KeyError \<and> to_pydevd 2 (bp_map s2) = Inl KeyError)"
proof -
  let ?A = "[plain_bp 10, plain_bp 20]"
  let ?B = "[plain_bp 30]"
  have h1: "idmap_wf (bp_map proc_init)"
    by (simp add: idmap_wf_def mutual_inverses_def proc_init_def IDMap_init_def)
  have h2: "ids_below_next (bp_map proc_init)"
    by (simp add: ids_below_next_def proc_init_def IDMap_init_def)
  have h3: "\<forall>b \<in> set ?A. line b \<noteq> None"
    by (simp add: plain_bp_def)
  have h4: "\<forall>b \<in> set ?B. line b \<noteq> None"
    by (simp add: plain_bp_def)
  have n: "next_id (bp_map proc_init) = 1"
    by (simp add: proc_init_def IDMap_init_def)
  have u1: "[1 .. 1 + int (length ?A) - 1] = [1, 2]"
    by (simp add: upto_rec1)
  from set_breakpoints_replaces [OF h1 h2 h3 h4, of "Some 1" "''a.py''" "Some 2"] obtain s1 s2 where
    c1: "on_setBreakpoints (Some 1) \<lparr>source_path = Some ''a.py'', breakpoints = Some ?A\<rparr> proc_init = Inr s1" and
    c2: "on_setBreakpoints (Some 2) \<lparr>source_path = Some ''a.py'', breakpoints = Some ?B\<rparr> s1 = Inr s2" and
    nx: "next_id (bp_map s1) = next_id (bp_map proc_init) + int (length ?A)" and
    f1: "filter (\<lambda>kv. fst (fst kv) = ''a.py'') (pairs (bp_map s1)) =
       map (\<lambda>i. ((''a.py'', i), i))
         [next_id (bp_map proc_init) .. next_id (bp_map proc_init) + int (length ?A) - 1]" and
    f2: "filter (\<lambda>kv. fst (fst kv) = ''a.py'') (pairs (bp_map s2)) =
       map (\<lambda>i. ((''a.py'', i), i)) [next_id (bp_map s1) .. next_id (bp_map s1) + int (length ?B) - 1]" and
    gone: "\<forall>i \<in> set [next_id (bp_map proc_init) .. next_id (bp_map proc_init) + int (length ?A) - 1].
         to_pydevd i (bp_map s2) = Inl KeyError"
    by blast
  have n1: "next_id (bp_map s1) = 3"
    using nx n by simp
  have g1: "filter (\<lambda>kv. fst (fst kv) = ''a.py'') (pairs (bp_map s1)) = [((''a.py'', 1), 1), ((''a.py'', 2), 2)]"
    using f1 unfolding n u1 by simp
  have g2: "filter (\<lambda>kv. fst (fst kv) = ''a.py'') (pairs (bp_map s2)) = [((''a.py'', 3), 3)]"
    using f2 unfolding n1 by simp
  have g3: "to_pydevd 1 (bp_map s2) = Inl KeyError" "to_pydevd 2 (bp_map s2) = Inl KeyError"
    using gone unfolding n u1 by simp_all
  from h1 h2 h3 h4 c1 c2 g1 g2 g3 show ?thesis
    by (simp add: plain_bp_def)
qed

section \<open>Properties of the evaluate handler\<close>

text \<open>
  C9. For an evaluate request with context \<^verbatim>\<open>repl\<close> on a known frame, when the reply to the
  evaluate request is one \<^verbatim>\<open>var\<close> element with \<^verbatim>\<open>isErrorOnEval\<close> equal to \<^verbatim>\<open>True\<close> and the
  reply to the exec request that follows is one \<^verbatim>\<open>var\<close> element, the handler sends both
  requests with the same message and answers with the type and the value of the second
  reply (the result being empty when they are \<^verbatim>\<open>NoneType\<close> and \<^verbatim>\<open>None\<close>) and
  \<^verbatim>\<open>variablesReference\<close> 0; nothing of the first reply is in the response.
\<close>

theorem evaluate_repl_fallback:
  assumes "to_pydevd vsc_fid (frame_map s) = Inr (pyd_tid, pyd_fid)"
    and "attr xvar ''isErrorOnEval'' = Some ''True''"
  shows "on_evaluate urllib_unquote request (Some e) (Some vsc_fid) (Some ''repl'')
           (Xml [xvar]) (Xml [xvar2]) s =
         Inr (s\<lparr>pydevd_out := pydevd_out s @
                  [Request CMD_EVALUATE_EXPRESSION (eval_msg pyd_tid pyd_fid (replace_tabs e)),
                   Request CMD_EXEC_EXPRESSION (eval_msg pyd_tid pyd_fid (replace_tabs e))],
                editor_out := editor_out s @
                  [Response request True None
                     [(''result'',
                       if unquote urllib_unquote (attr xvar2 ''value'') = Some ''None'' \<and>
                          unquote urllib_unquote (attr xvar2 ''type'') = Some ''NoneType''
                       then VNone else str_or_none (unquote urllib_unquote (attr xvar2 ''value''))),
                      (''type'', str_or_none (unquote urllib_unquote (attr xvar2 ''type''))),
                      (''variablesReference'', VInt 0)]]\<rparr>)"
  using assms
  by (simp add: on_evaluate_def Let_def pydevd_request_def send_response_def)


theorem evaluate_repl_fallback_witness:
  "to_pydevd 1 (frame_map suspended_example) = Inr (''t1'', 5) \<and>
   attr [(''type'', ''SyntaxError''), (''value'', ''invalid syntax''), (''isErrorOnEval'', ''True'')]
     ''isErrorOnEval'' = Some ''True'' \<and>
   on_evaluate id 9 (Some ''x = 3'') (Some 1) (Some ''repl'')
     (Xml [[(''type'', ''SyntaxError''), (''value'', ''invalid syntax''), (''isErrorOnEval'', ''True'')]])
     (Xml [[(''type'', ''NoneType''), (''value'', ''None'')]]) suspended_example =
   Inr (suspended_example
     \<lparr>pydevd_out :=
        [Request CMD_EVALUATE_EXPRESSION (eval_msg ''t1'' 5 ''x = 3''),
         Request CMD_EXEC_EXPRESSION (eval_msg ''t1'' 5 ''x = 3'')],
      editor_out :=
        [Response 9 True None
           [(''result'', VNone), (''type'', VStr ''NoneType''), (''variablesReference'', VInt 0)]]\<rparr>)"
proof -
  let ?x = "[(''type'', ''SyntaxError''), (''value'', ''invalid syntax''), (''isErrorOnEval'', ''True'')]"
  let ?x2 = "[(''type'', ''NoneType''), (''value'', ''None'')]"
  have h1: "to_pydevd 1 (frame_map suspended_example) = Inr (''t1'', 5)"
    by (simp add: to_pydevd_def dict_get_def suspended_example_def proc_init_def)
  have h2: "attr ?x ''isErrorOnEval'' = Some ''True''"
    by (simp add: attr_def)
  have o: "pydevd_out suspended_example = []" "editor_out suspended_example = []"
    by (simp_all add: suspended_example_def proc_init_def)
  have r: "replace_tabs ''x = 3'' = ''x = 3''"
    by (simp add: replace_tabs_def TAB_def)
  from evaluate_repl_fallback [OF h1 h2, of id 9 "''x = 3''" ?x2] h1 h2 o r show ?thesis
    by (simp add: unquote_def attr_def str_or_none_def)
qed

section \<open>Properties of the variables handler\<close>

lemma startswith_two_one: "startswith n ''__'' \<Longrightarrow> startswith n ''_''"
  by (cases n) simp_all

lemma append_by_group:
  "VariablesSorter_append v S =
     (if name_group (var_name v) = 0 then S\<lparr>variables := variables S @ [v]\<rparr>
      else if name_group (var_name v) = 1 then S\<lparr>single_underscore := single_underscore S @ [v]\<rparr>
      else if name_group (var_name v) = 2 then S\<lparr>double_underscore := double_underscore S @ [v]\<rparr>
      else S\<lparr>dunder := dunder S @ [v]\<rparr>)"
  using startswith_two_one [of "var_name v"]
  by (auto simp add: VariablesSorter_append_def name_group_def)

lemma name_group_less: "name_group n < 4"
  by (simp add: name_group_def)

lemma append_fields:
  "variables (VariablesSorter_append v S) =
     variables S @ (if name_group (var_name v) = 0 then [v] else [])"
  "single_underscore (VariablesSorter_append v S) =
     single_underscore S @ (if name_group (var_name v) = 1 then [v] else [])"
  "double_underscore (VariablesSorter_append v S) =
     double_underscore S @ (if name_group (var_name v) = 2 then [v] else [])"
  "dunder (VariablesSorter_append v S) =
     dunder S @ (if name_group (var_name v) = 3 then [v] else [])"
  using name_group_less [of "var_name v"]
  by (auto simp add: append_by_group)

lemma sorter_fold:
  "variables (foldl (\<lambda>s v. VariablesSorter_append v s) S vars) =
     variables S @ filter (\<lambda>v. name_group (var_name v) = 0) vars \<and>
   single_underscore (foldl (\<lambda>s v. VariablesSorter_append v s) S vars) =
     single_underscore S @ filter (\<lambda>v. name_group (var_name v) = 1) vars \<and>
   double_underscore (foldl (\<lambda>s v. VariablesSorter_append v s) S vars) =
     double_underscore S @ filter (\<lambda>v. name_group (var_name v) = 2) vars \<and>
   dunder (foldl (\<lambda>s v. VariablesSorter_append v s) S vars) =
     dunder S @ filter (\<lambda>v. name_group (var_name v) = 3) vars"
proof (induction vars arbitrary: S)
  case Nil
  then show ?case by simp
next
  case (Cons v vars)
  show ?case
    by (simp add: Cons.IH append_fields)
qed

lemma sorted_groups:
  "get_sorted_variables (foldl (\<lambda>s v. VariablesSorter_append v s) VariablesSorter_init vars) =
     sort_key var_name (filter (\<lambda>v. name_group (var_name v) = 0) vars) @
     sort_key var_name (filter (\<lambda>v. name_group (var_name v) = 1) vars) @
     sort_key var_name (filter (\<lambda>v. name_group (var_name v) = 2) vars) @
     sort_key var_name (filter (\<lambda>v. name_group (var_name v) = 3) vars)"
  by (simp add: get_sorted_variables_def sorter_fold VariablesSorter_init_def)

lemma filter_group_sorted:
  "filter (\<lambda>v. name_group (var_name v) = k)
     (sort_key var_name (filter (\<lambda>v. name_group (var_name v) = i) vars)) =
   (if k = i then sort_key var_name (filter (\<lambda>v. name_group (var_name v) = i) vars) else [])"
proof (cases "k = i")
  case True
  have "filter (\<lambda>v. name_group (var_name v) = i) (filter (\<lambda>v. name_group (var_name v) = i) vars) =
        filter (\<lambda>v. name_group (var_name v) = i) vars"
    by simp
  with True show ?thesis by (simp add: filter_sort)
next
  case False
  then have "filter (\<lambda>v. name_group (var_name v) = k) (filter (\<lambda>v. name_group (var_name v) = i) vars) = []"
    by (induction vars) auto
  with False show ?thesis by (simp add: filter_sort)
qed

lemma filter_name_group:
  "filter (\<lambda>v. name_group (var_name v) = i \<and> var_name v = n) vars =
   (if name_group n = i then filter (\<lambda>v. var_name v = n) vars else [])"
  by (induction vars) auto

lemma groups_mset:
  "mset (filter (\<lambda>v. name_group (var_name v) = 0) vars) +
   mset (filter (\<lambda>v. name_group (var_name v) = 1) vars) +
   mset (filter (\<lambda>v. name_group (var_name v) = 2) vars) +
   mset (filter (\<lambda>v. name_group (var_name v) = 3) vars) = mset vars"
proof (induction vars)
  case Nil
  then show ?case by simp
next
  case (Cons v vars)
  have "name_group (var_name v) < 4" by (rule name_group_less)
  then consider "name_group (var_name v) = 0" | "name_group (var_name v) = 1"
    | "name_group (var_name v) = 2" | "name_group (var_name v) = 3"
    by linarith
  then show ?case
    using Cons.IH by cases simp_all
qed

lemma sorter_order:
  assumes "r = get_sorted_variables (foldl (\<lambda>s v. VariablesSorter_append v s) VariablesSorter_init vars)"
  shows "mset r = mset vars"
    and "r = filter (\<lambda>v. name_group (var_name v) = 0) r @ filter (\<lambda>v. name_group (var_name v) = 1) r @
             filter (\<lambda>v. name_group (var_name v) = 2) r @ filter (\<lambda>v. name_group (var_name v) = 3) r"
    and "sorted (map var_name (filter (\<lambda>v. name_group (var_name v) = 0) r))"
    and "sorted (map var_name (filter (\<lambda>v. name_group (var_name v) = 1) r))"
    and "sorted (map var_name (filter (\<lambda>v. name_group (var_name v) = 2) r))"
    and "sorted (map var_name (filter (\<lambda>v. name_group (var_name v) = 3) r))"
    and "filter (\<lambda>v. var_name v = n) r = filter (\<lambda>v. var_name v = n) vars"
proof -
  let ?g = "\<lambda>i. sort_key var_name (filter (\<lambda>v. name_group (var_name v) = i) vars)"
  have r: "r = ?g 0 @ ?g 1 @ ?g 2 @ ?g 3"
    using assms by (simp add: sorted_groups)
  have f: "\<And>k. k < 4 \<Longrightarrow> filter (\<lambda>v. name_group (var_name v) = k) r = ?g k"
  proof -
    fix k :: nat assume "k < 4"
    then consider "k = 0" | "k = 1" | "k = 2" | "k = 3" by linarith
    then show "filter (\<lambda>v. name_group (var_name v) = k) r = ?g k"
      unfolding r by cases (simp_all add: filter_group_sorted)
  qed
  show "mset r = mset vars"
    unfolding r using groups_mset [of vars] by (simp add: ac_simps)
  show "r = filter (\<lambda>v. name_group (var_name v) = 0) r @ filter (\<lambda>v. name_group (var_name v) = 1) r @
             filter (\<lambda>v. name_group (var_name v) = 2) r @ filter (\<lambda>v. name_group (var_name v) = 3) r"
    using r by (simp add: f)
  show "sorted (map var_name (filter (\<lambda>v. name_group (var_name v) = 0) r))"
    by (simp add: f)
  show "sorted (map var_name (filter (\<lambda>v. name_group (var_name v) = 1) r))"
    by (simp add: f)
  show "sorted (map var_name (filter (\<lambda>v. name_group (var_name v) = 2) r))"
    by (simp add: f)
  show "sorted (map var_name (filter (\<lambda>v. name_group (var_name v) = 3) r))"
    by (simp add: f)
  have "name_group n < 4" by (rule name_group_less)
  then consider "name_group n = 0" | "name_group n = 1" | "name_group n = 2" | "name_group n = 3"
    by linarith
  then show "filter (\<lambda>v. var_name v = n) r = filter (\<lambda>v. var_name v = n) vars"
    unfolding r by cases (simp_all add: sort_key_stable filter_name_group)
qed

lemma variables_loop_built:
  "variables_loop urllib_unquote pv xvars vm S = Inr (vm', S') \<Longrightarrow>
     S' = foldl (\<lambda>s v. VariablesSorter_append v s) S (built_variables urllib_unquote pv xvars vm) \<and>
     map var_name (built_variables urllib_unquote pv xvars vm) =
       map (\<lambda>x. the (unquote urllib_unquote (attr x ''name''))) xvars \<and>
     map var_type (built_variables urllib_unquote pv xvars vm) =
       map (\<lambda>x. unquote urllib_unquote (attr x ''type'')) xvars \<and>
     map var_value (built_variables urllib_unquote pv xvars vm) =
       map (\<lambda>x. unquote urllib_unquote (attr x ''value'')) xvars"
proof (induction xvars arbitrary: vm S)
  case Nil
  then show ?case by simp
next
  case (Cons xvar rest)
  from Cons.prems obtain name where name: "unquote urllib_unquote (attr xvar ''name'') = Some name"
    by (cases "unquote urllib_unquote (attr xvar ''name'')") simp_all
  let ?var = "\<lambda>ref. \<lparr>var_name = name,
      var_type = unquote urllib_unquote (attr xvar ''type''),
      var_value = unquote urllib_unquote (attr xvar ''value''),
      presentationHint = (unquote urllib_unquote (attr xvar ''type'')
         \<in> set [Some ''str'', Some ''unicode'', Some ''bytes'', Some ''bytearray'']),
      variablesReference = ref,
      evaluateName = (if truthy (get_variable_evaluate_name pv name)
                      then get_variable_evaluate_name pv name else None)\<rparr>"
  show ?case
  proof (cases "truthy (attr xvar ''isContainer'')")
    case False
    with Cons.prems name
    have rec: "variables_loop urllib_unquote pv rest vm (VariablesSorter_append (?var None) S) = Inr (vm', S')"
      by (simp add: Let_def)
    have b: "built_variables urllib_unquote pv (xvar # rest) vm =
        ?var None # built_variables urllib_unquote pv rest vm"
      using name False by (simp add: Let_def)
    from Cons.IH [OF rec] show ?thesis
      unfolding b using name by simp
  next
    case True
    obtain res vm1 where tv: "to_vscode (var_key_child pv name) True vm = (res, vm1)"
      by (cases "to_vscode (var_key_child pv name) True vm")
    show ?thesis
    proof (cases res)
      case (Inl e)
      with Cons.prems name True tv show ?thesis by (simp add: Let_def)
    next
      case (Inr c)
      with Cons.prems name True tv
      have rec: "variables_loop urllib_unquote pv rest vm1 (VariablesSorter_append (?var (Some c)) S) = Inr (vm', S')"
        by (simp add: Let_def)
      have b: "built_variables urllib_unquote pv (xvar # rest) vm =
          ?var (Some c) # built_variables urllib_unquote pv rest vm1"
        using name True tv Inr by (simp add: Let_def)
      from Cons.IH [OF rec] show ?thesis
        unfolding b using name by simp
    qed
  qed
qed

text \<open>
  C10. Whenever \<^verbatim>\<open>on_variables\<close> answers a parsed reply for a known variables reference,
  its one response carries the variables that the loop built from the \<^verbatim>\<open>var\<close> elements
  (one for each element, with the element's name, type and value), rearranged as follows:
  first the names without a leading underscore, then those with exactly one, then those
  that begin with two underscores and do not end with two, then those that begin and end
  with two; each of the four groups is sorted by name; and variables of the same name
  keep the order of the reply, so that nothing else is reordered.
\<close>

theorem variables_response_order:
  assumes "to_pydevd vsc_var (var_map s) = Inr pyd_var"
    and "on_variables urllib_unquote request (Some vsc_var) (Xml xvars) s = Inr s'"
  shows "\<exists>r.
     editor_out s' = editor_out s @ [Response request True None [(''variables'', VVariables r)]] \<and>
     map var_name (built_variables urllib_unquote pyd_var xvars (var_map s)) =
       map (\<lambda>x. the (unquote urllib_unquote (attr x ''name''))) xvars \<and>
     map var_type (built_variables urllib_unquote pyd_var xvars (var_map s)) =
       map (\<lambda>x. unquote urllib_unquote (attr x ''type'')) xvars \<and>
     map var_value (built_variables urllib_unquote pyd_var xvars (var_map s)) =
       map (\<lambda>x. unquote urllib_unquote (attr x ''value'')) xvars \<and>
     mset r = mset (built_variables urllib_unquote pyd_var xvars (var_map s)) \<and>
     r = filter (\<lambda>v. name_group (var_name v) = 0) r @ filter (\<lambda>v. name_group (var_name v) = 1) r @
         filter (\<lambda>v. name_group (var_name v) = 2) r @ filter (\<lambda>v. name_group (var_name v) = 3) r \<and>
     sorted (map var_name (filter (\<lambda>v. name_group (var_name v) = 0) r)) \<and>
     sorted (map var_name (filter (\<lambda>v. name_group (var_name v) = 1) r)) \<and>
     sorted (map var_name (filter (\<lambda>v. name_group (var_name v) = 2) r)) \<and>
     sorted (map var_name (filter (\<lambda>v. name_group (var_name v) = 3) r)) \<and>
     (\<forall>n. filter (\<lambda>v. var_name v = n) r =
          filter (\<lambda>v. var_name v = n) (built_variables urllib_unquote pyd_var xvars (var_map s)))"
proof -
  let ?vars = "built_variables urllib_unquote pyd_var xvars (var_map s)"
  obtain vm vs where
    loop: "variables_loop urllib_unquote pyd_var xvars (var_map s) VariablesSorter_init = Inr (vm, vs)"
  proof (cases "variables_loop urllib_unquote pyd_var xvars (var_map s) VariablesSorter_init")
    case (Inl e)
    with assms show ?thesis by (simp add: on_variables_def Let_def pydevd_request_def)
  next
    case (Inr res)
    then show ?thesis using that by (cases res) simp
  qed
  have out: "editor_out s' = editor_out s @
        [Response request True None [(''variables'', VVariables (get_sorted_variables vs))]]"
    using assms loop
    by (auto simp add: on_variables_def Let_def pydevd_request_def send_response_def
        split: if_splits)
  from variables_loop_built [OF loop] have
    vs: "vs = foldl (\<lambda>s v. VariablesSorter_append v s) VariablesSorter_init ?vars" and
    names: "map var_name ?vars = map (\<lambda>x. the (unquote urllib_unquote (attr x ''name''))) xvars" and
    types: "map var_type ?vars = map (\<lambda>x. unquote urllib_unquote (attr x ''type'')) xvars" and
    vals: "map var_value ?vars = map (\<lambda>x. unquote urllib_unquote (attr x ''value'')) xvars"
    by simp_all
  let ?r = "get_sorted_variables vs"
  have r: "?r = get_sorted_variables (foldl (\<lambda>s v. VariablesSorter_append v s) VariablesSorter_init ?vars)"
    using vs by simp
  note o = sorter_order [OF r]
  have st: "\<forall>n. filter (\<lambda>v. var_name v = n) ?r = filter (\<lambda>v. var_name v = n) ?vars"
    using o(7) by blast
  have all: "editor_out s' = editor_out s @ [Response request True None [(''variables'', VVariables ?r)]] \<and>
     map var_name ?vars = map (\<lambda>x. the (unquote urllib_unquote (attr x ''name''))) xvars \<and>
     map var_type ?vars = map (\<lambda>x. unquote urllib_unquote (attr x ''type'')) xvars \<and>
     map var_value ?vars = map (\<lambda>x. unquote urllib_unquote (attr x ''value'')) xvars \<and>
     mset ?r = mset ?vars \<and>
     ?r = filter (\<lambda>v. name_group (var_name v) = 0) ?r @ filter (\<lambda>v. name_group (var_name v) = 1) ?r @
         filter (\<lambda>v. name_group (var_name v) = 2) ?r @ filter (\<lambda>v. name_group (var_name v) = 3) ?r \<and>
     sorted (map var_name (filter (\<lambda>v. name_group (var_name v) = 0) ?r)) \<and>
     sorted (map var_name (filter (\<lambda>v. name_group (var_name v) = 1) ?r)) \<and>
     sorted (map var_name (filter (\<lambda>v. name_group (var_name v) = 2) ?r)) \<and>
     sorted (map var_name (filter (\<lambda>v. name_group (var_name v) = 3) ?r)) \<and>
     (\<forall>n. filter (\<lambda>v. var_name v = n) ?r = filter (\<lambda>v. var_name v = n) ?vars)"
    using out names types vals o(1) o(2) o(3) o(4) o(5) o(6) st by (intro conjI)
  show ?thesis
    by (rule exI [where x = "?r"]) (rule all)
qed

theorem variables_response_order_witness:
  "to_pydevd 1 (var_map suspended_example) = Inr (''t1'', 5, [''FRAME'']) \<and>
   on_variables id 3 (Some 1) (Xml locals_reply) suspended_example =
     Inr (projr (on_variables id 3 (Some 1) (Xml locals_reply) suspended_example)) \<and>
   map var_name (built_variables id (''t1'', 5, [''FRAME'']) locals_reply (var_map suspended_example)) =
     [''b'', ''__x__'', ''_p'', ''a''] \<and>
   (\<exists>r. editor_out (projr (on_variables id 3 (Some 1) (Xml locals_reply) suspended_example)) =
          [Response 3 True None [(''variables'', VVariables r)]] \<and>
        map var_name r = [''a'', ''b'', ''_p'', ''__x__''] \<and>
        mset r = mset (built_variables id (''t1'', 5, [''FRAME'']) locals_reply (var_map suspended_example)))"
proof -
  let ?run = "on_variables id 3 (Some 1) (Xml locals_reply) suspended_example"
  let ?vars = "built_variables id (''t1'', 5, [''FRAME'']) locals_reply (var_map suspended_example)"
  have h0: "to_pydevd 1 (var_map suspended_example) = Inr (''t1'', 5, [''FRAME''])"
    by (simp add: to_pydevd_def dict_get_def suspended_example_def proc_init_def)
  have ni: "\<not> isl ?run"
    by code_simp
  then have h: "?run = Inr (projr ?run)"
    by simp
  have e: "editor_out suspended_example = []"
    by (simp add: suspended_example_def proc_init_def)
  have names: "(case editor_out (projr ?run) of
                  [Response q ok m [(k, VVariables r)]] \<Rightarrow> map var_name r
                | _ \<Rightarrow> []) = [''a'', ''b'', ''_p'', ''__x__'']"
    by code_simp
  have bn: "map var_name ?vars = [''b'', ''__x__'', ''_p'', ''a'']"
    by code_simp
  from variables_response_order [OF h0 h] obtain r where
    out: "editor_out (projr ?run) = editor_out suspended_example @
        [Response 3 True None [(''variables'', VVariables r)]]" and
    ms: "mset r = mset ?vars"
    by blast
  from out e have out': "editor_out (projr ?run) = [Response 3 True None [(''variables'', VVariables r)]]"
    by simp
  with names have nm: "map var_name r = [''a'', ''b'', ''_p'', ''__x__'']"
    by simp
  have "editor_out (projr ?run) = [Response 3 True None [(''variables'', VVariables r)]] \<and>
        map var_name r = [''a'', ''b'', ''_p'', ''__x__''] \<and> mset r = mset ?vars"
    using out' nm ms by (intro conjI)
  then have "\<exists>r. editor_out (projr ?run) = [Response 3 True None [(''variables'', VVariables r)]] \<and>
        map var_name r = [''a'', ''b'', ''_p'', ''__x__''] \<and> mset r = mset ?vars"
    by (rule exI [where x = r])
  with h0 h bn show ?thesis by (intro conjI)
qed


end
